theory Spec2Isabelle
  imports Complex_Main "HOL-Library.Word"
begin

unbundle bit_operations_syntax

section \<open>The hash primitive: \<^verbatim>\<open>sha256\<close> of \<^verbatim>\<open>blockchain.js\<close>\<close>

text \<open>
  Strings are modelled as the sequence of their UTF-8 bytes (\<^typ>\<open>string\<close>), so that
  \<^verbatim>\<open>TextEncoder.encode\<close> is the identity on the bytes and string concatenation is \<open>@\<close>.
  The JavaScript works on \<^verbatim>\<open>Uint32Array\<close> cells and closes every sum with \<^verbatim>\<open>| 0\<close>, which is
  arithmetic modulo \<open>2 ^ 32\<close>: the model uses \<^typ>\<open>32 word\<close>. As in the source, only the low
  32 bits of the bit length are written into the padding (\<^verbatim>\<open>dv.setUint32(padLen - 4, bitLen)\<close>).
\<close>

definition SHA256_K :: "32 word list" where
  "SHA256_K =
     [0x428a2f98, 0x71374491, 0xb5c0fbcf, 0xe9b5dba5, 0x3956c25b, 0x59f111f1, 0x923f82a4, 0xab1c5ed5] @
     [0xd807aa98, 0x12835b01, 0x243185be, 0x550c7dc3, 0x72be5d74, 0x80deb1fe, 0x9bdc06a7, 0xc19bf174] @
     [0xe49b69c1, 0xefbe4786, 0x0fc19dc6, 0x240ca1cc, 0x2de92c6f, 0x4a7484aa, 0x5cb0a9dc, 0x76f988da] @
     [0x983e5152, 0xa831c66d, 0xb00327c8, 0xbf597fc7, 0xc6e00bf3, 0xd5a79147, 0x06ca6351, 0x14292967] @
     [0x27b70a85, 0x2e1b2138, 0x4d2c6dfc, 0x53380d13, 0x650a7354, 0x766a0abb, 0x81c2c92e, 0x92722c85] @
     [0xa2bfe8a1, 0xa81a664b, 0xc24b8b70, 0xc76c51a3, 0xd192e819, 0xd6990624, 0xf40e3585, 0x106aa070] @
     [0x19a4c116, 0x1e376c08, 0x2748774c, 0x34b0bcb5, 0x391c0cb3, 0x4ed8aa4a, 0x5b9cca4f, 0x682e6ff3] @
     [0x748f82ee, 0x78a5636f, 0x84c87814, 0x8cc70208, 0x90befffa, 0xa4506ceb, 0xbef9a3f7, 0xc67178f2]"

definition rot :: "32 word \<Rightarrow> nat \<Rightarrow> 32 word" where
  "rot v n = drop_bit n v OR push_bit (32 - n) v"

definition encode :: "string \<Rightarrow> 8 word list" where
  "encode message = map of_char message"

definition setUint32 :: "32 word \<Rightarrow> 8 word list" where
  "setUint32 v = [ucast (drop_bit 24 v), ucast (drop_bit 16 v), ucast (drop_bit 8 v), ucast v]"

definition padMessage :: "8 word list \<Rightarrow> 8 word list" where
  "padMessage bytes =
     (let bitLen = length bytes * 8;
          padLen = ((length bytes + 9 + 63) div 64) * 64
      in bytes @ [0x80] @ replicate (padLen - length bytes - 5) 0 @ setUint32 (word_of_nat bitLen))"

definition getUint32 :: "8 word list \<Rightarrow> nat \<Rightarrow> 32 word" where
  "getUint32 bs k =
     push_bit 24 (ucast (bs ! k)) OR push_bit 16 (ucast (bs ! (k + 1))) OR
     push_bit 8 (ucast (bs ! (k + 2))) OR ucast (bs ! (k + 3))"

text \<open>The message schedule: \<open>w\<close> holds the first \<open>i\<close> cells, the next one is appended.\<close>

fun expandSchedule :: "nat \<Rightarrow> 32 word list \<Rightarrow> 32 word list" where
  "expandSchedule 0 w = w"
| "expandSchedule (Suc k) w =
     (let i = length w;
          s0 = rot (w ! (i - 15)) 7 XOR rot (w ! (i - 15)) 18 XOR drop_bit 3 (w ! (i - 15));
          s1 = rot (w ! (i - 2)) 17 XOR rot (w ! (i - 2)) 19 XOR drop_bit 10 (w ! (i - 2))
      in expandSchedule k (w @ [w ! (i - 16) + s0 + w ! (i - 7) + s1]))"

type_synonym sha_state =
  "32 word \<times> 32 word \<times> 32 word \<times> 32 word \<times> 32 word \<times> 32 word \<times> 32 word \<times> 32 word"

definition shaRound :: "32 word list \<Rightarrow> sha_state \<Rightarrow> nat \<Rightarrow> sha_state" where
  "shaRound w st i =
     (case st of (a, b, c, d, e, f, g, h) \<Rightarrow>
      let S1 = rot e 6 XOR rot e 11 XOR rot e 25;
          ch = (e AND f) XOR (NOT e AND g);
          t1 = h + S1 + ch + SHA256_K ! i + w ! i;
          S0 = rot a 2 XOR rot a 13 XOR rot a 22;
          maj = (a AND b) XOR (a AND c) XOR (b AND c);
          t2 = S0 + maj
      in (t1 + t2, a, b, c, d + t1, e, f, g))"

definition shaBlock :: "8 word list \<Rightarrow> sha_state \<Rightarrow> nat \<Rightarrow> sha_state" where
  "shaBlock padded hs off =
     (case hs of (h0, h1, h2, h3, h4, h5, h6, h7) \<Rightarrow>
      let w = expandSchedule 48 (map (\<lambda>i. getUint32 padded (off + i * 4)) [0..<16]);
          r = foldl (shaRound w) hs [0..<64]
      in case r of (a, b, c, d, e, f, g, h) \<Rightarrow>
           (h0 + a, h1 + b, h2 + c, h3 + d, h4 + e, h5 + f, h6 + g, h7 + h))"

definition hexDigit :: "nat \<Rightarrow> char" where
  "hexDigit d = ''0123456789abcdef'' ! (d mod 16)"

text \<open>\<^verbatim>\<open>(v >>> 0).toString(16).padStart(8, '0')\<close>: eight lower-case hex digits.\<close>

definition toHex8 :: "32 word \<Rightarrow> string" where
  "toHex8 v = map (\<lambda>k. hexDigit (unat (drop_bit (4 * k) v))) [7, 6, 5, 4, 3, 2, 1, 0]"

definition sha256 :: "string \<Rightarrow> string" where
  "sha256 message =
     (let padded = padMessage (encode message);
          hs = foldl (shaBlock padded)
                 (0x6a09e667, 0xbb67ae85, 0x3c6ef372, 0xa54ff53a,
                  0x510e527f, 0x9b05688c, 0x1f83d9ab, 0x5be0cd19)
                 (map (\<lambda>j. j * 64) [0..<length padded div 64])
      in case hs of (h0, h1, h2, h3, h4, h5, h6, h7) \<Rightarrow>
           concat (map toHex8 [h0, h1, h2, h3, h4, h5, h6, h7]))"

text \<open>
  A 32-bit cell written by the natural number it holds: the form on which the digest of a
  concrete message is computed step by step.
\<close>

definition cell :: "nat \<Rightarrow> 32 word" where
  "cell n = word_of_nat n"

section \<open>The Merkle tree\<close>

text \<open>
  One level of the tree. \<^verbatim>\<open>level[i + 1] || level[i]\<close> takes the left hash again when the
  right one is missing (odd count) and also when it is the empty string, which JavaScript
  treats as false.
\<close>

fun pairUp :: "string list \<Rightarrow> string list" where
  "pairUp [] = []"
| "pairUp [left] = [sha256 (left @ left)]"
| "pairUp (left # r # rest) =
     sha256 (left @ (if r = [] then left else r)) # pairUp rest"

function rootLoop :: "string list \<Rightarrow> string list" where
  "rootLoop level = (if length level > 1 then rootLoop (pairUp level) else level)"
  by pat_completeness auto
termination
proof (relation "measure length")
  show "wf (measure length)" by simp
next
  fix level :: "string list"
  assume long: "1 < length level"
  have "length (pairUp xs) = (length xs + 1) div 2" for xs
    by (induction xs rule: pairUp.induct) simp_all
  with long show "(pairUp level, level) \<in> measure length" by simp
qed

declare rootLoop.simps [simp del]

text \<open>
  \<^verbatim>\<open>computeRoot\<close> returns \<^verbatim>\<open>level[0]\<close> after the loop; the loop starts from a non-empty
  list and keeps it non-empty, so the head exists.
\<close>

definition computeRoot :: "string list \<Rightarrow> string" where
  "computeRoot hashes = (if length hashes = 0 then sha256 [] else hd (rootLoop hashes))"

record proofStep =
  stepHash :: string
  position :: string

text \<open>
  The steps that the inner \<^verbatim>\<open>for\<close> loop of \<^verbatim>\<open>getProof\<close> pushes while it walks one level;
  \<open>i\<close> is the loop counter, the list holds \<^verbatim>\<open>level[i], level[i + 1], ...\<close>.
\<close>

fun levelSteps :: "nat \<Rightarrow> nat \<Rightarrow> string list \<Rightarrow> proofStep list" where
  "levelSteps i idx [] = []"
| "levelSteps i idx [left] =
     (if i = idx - idx mod 2
      then [if idx mod 2 = 0 then \<lparr>stepHash = left, position = ''right''\<rparr>
            else \<lparr>stepHash = left, position = ''left''\<rparr>]
      else [])"
| "levelSteps i idx (left # r # rest) =
     (if i = idx - idx mod 2
      then [if idx mod 2 = 0
            then \<lparr>stepHash = (if r = [] then left else r), position = ''right''\<rparr>
            else \<lparr>stepHash = left, position = ''left''\<rparr>]
      else []) @ levelSteps (i + 2) idx rest"

function proofLoop :: "string list \<Rightarrow> nat \<Rightarrow> proofStep list" where
  "proofLoop level idx =
     (if length level > 1
      then levelSteps 0 idx level @ proofLoop (pairUp level) (idx div 2)
      else [])"
  by pat_completeness auto
termination
proof (relation "measure (\<lambda>(level, idx). length level)")
  show "wf (measure (\<lambda>(level, idx). length level))" by simp
next
  fix level :: "string list" and idx :: nat
  assume long: "1 < length level"
  have "length (pairUp xs) = (length xs + 1) div 2" for xs
    by (induction xs rule: pairUp.induct) simp_all
  with long show "((pairUp level, idx div 2), (level, idx)) \<in> measure (\<lambda>(level, idx). length level)"
    by simp
qed

declare proofLoop.simps [simp del]

definition getProof :: "string list \<Rightarrow> nat \<Rightarrow> proofStep list" where
  "getProof hashes index = (if length hashes \<le> 1 then [] else proofLoop hashes index)"

definition verifyStep :: "string \<Rightarrow> proofStep \<Rightarrow> string" where
  "verifyStep h step =
     (if position step = ''right'' then sha256 (h @ stepHash step)
      else sha256 (stepHash step @ h))"

definition verifyProof :: "string \<Rightarrow> proofStep list \<Rightarrow> string \<Rightarrow> bool" where
  "verifyProof txHash proof = (\<lambda>root. foldl verifyStep txHash proof = root)"

section \<open>Strings and numbers as JavaScript prints them\<close>

definition startsWith :: "string \<Rightarrow> string \<Rightarrow> bool" where
  "startsWith s t = (take (length t) s = t)"

definition repeat :: "string \<Rightarrow> nat \<Rightarrow> string" where
  "repeat s n = concat (replicate n s)"

definition decDigit :: "nat \<Rightarrow> char" where
  "decDigit d = ''0123456789'' ! (d mod 10)"

text \<open>
  Heights, timestamps, difficulties, nonces and output indices are JavaScript numbers that
  hold non-negative integers; below \<open>10 ^ 21\<close> such a number prints as its decimal digits.
  They are modelled as \<^typ>\<open>nat\<close>, amounts as \<^typ>\<open>int\<close> (integral amounts; how the source
  computes with them is the subject of the next section).
\<close>

fun numberToString :: "nat \<Rightarrow> string" where
  "numberToString n =
     (if n < 10 then [decDigit n] else numberToString (n div 10) @ [decDigit (n mod 10)])"

declare numberToString.simps [simp del]

definition amountToString :: "int \<Rightarrow> string" where
  "amountToString a = (if a < 0 then ''-'' @ numberToString (nat (- a)) else numberToString (nat a))"

text \<open>\<^verbatim>\<open>JSON.stringify\<close> of a string: quotes, with the escapes of the JSON grammar.\<close>

definition jsonEscape :: "char \<Rightarrow> string" where
  "jsonEscape c =
     (if c = CHR 0x22 then [CHR 0x5C, CHR 0x22]
      else if c = CHR 0x5C then [CHR 0x5C, CHR 0x5C]
      else if c = CHR 0x08 then [CHR 0x5C, CHR ''b'']
      else if c = CHR 0x09 then [CHR 0x5C, CHR ''t'']
      else if c = CHR 0x0A then [CHR 0x5C, CHR ''n'']
      else if c = CHR 0x0C then [CHR 0x5C, CHR ''f'']
      else if c = CHR 0x0D then [CHR 0x5C, CHR ''r'']
      else if (of_char c :: nat) < 32
      then [CHR 0x5C, CHR ''u'', CHR ''0'', CHR ''0'',
            hexDigit ((of_char c :: nat) div 16), hexDigit (of_char c :: nat)]
      else [c])"

definition jsonString :: "string \<Rightarrow> string" where
  "jsonString s = [CHR 0x22] @ concat (map jsonEscape s) @ [CHR 0x22]"

fun joinComma :: "string list \<Rightarrow> string" where
  "joinComma [] = []"
| "joinComma [x] = x"
| "joinComma (x # y # rest) = x @ '','' @ joinComma (y # rest)"

definition jsonArray :: "string list \<Rightarrow> string" where
  "jsonArray items = ''['' @ joinComma items @ '']''"

section \<open>Numbers as JavaScript computes them\<close>

text \<open>
  A JavaScript number is an IEEE 754 double: a finite double is modelled as the rational
  number it denotes, next to the two infinities and \<^verbatim>\<open>NaN\<close>. The sign of a zero is left
  out: the program never divides by a zero, the one place where the sign could be observed.
\<close>

datatype number = Finite rat | PlusInfinity | MinusInfinity | NaN

text \<open>The number of binary digits of a positive integer.\<close>

function bitLength :: "int \<Rightarrow> nat" where
  "bitLength n = (if n \<le> 0 then 0 else Suc (bitLength (n div 2)))"
  by pat_completeness auto
termination
  by (relation "measure nat") auto

declare bitLength.simps [simp del]

text \<open>
  The binary exponent of a rational \<open>q \<noteq> 0\<close>, the \<open>e\<close> with \<open>2 powi e \<le> \<bar>q\<bar> < 2 powi (e + 1)\<close>:
  the difference of the bit lengths of numerator and denominator, or one less.
\<close>

definition exponentOf :: "rat \<Rightarrow> int" where
  "exponentOf q =
     (let e = int (bitLength (fst (quotient_of \<bar>q\<bar>))) -
              int (bitLength (snd (quotient_of \<bar>q\<bar>)))
      in if \<bar>q\<bar> < 2 powi e then e - 1 else e)"

definition roundHalfEven :: "rat \<Rightarrow> int" where
  "roundHalfEven q =
     (if q - of_int \<lfloor>q\<rfloor> < 1 / 2 then \<lfloor>q\<rfloor>
      else if 1 / 2 < q - of_int \<lfloor>q\<rfloor> then \<lfloor>q\<rfloor> + 1
      else if even \<lfloor>q\<rfloor> then \<lfloor>q\<rfloor> else \<lfloor>q\<rfloor> + 1)"

text \<open>
  Rounding to the nearest double, ties to the even significand. The significand has 53
  bits, so the last place of a value of exponent \<open>e\<close> weighs \<open>2 powi (e - 52)\<close>, and never
  less than \<open>2 powi - 1074\<close> (the subnormal numbers); a value that rounds to \<open>2 ^ 1024\<close> or
  beyond becomes an infinity.
\<close>

definition toDouble :: "rat \<Rightarrow> number" where
  "toDouble q =
     (if q = 0 then Finite 0
      else let p = max (exponentOf q - 52) (- 1074);
               v = of_int (roundHalfEven (q / 2 powi p)) * 2 powi p
           in if 2 powi 1024 \<le> v then PlusInfinity
              else if v \<le> - (2 powi 1024) then MinusInfinity
              else Finite v)"

text \<open>\<^verbatim>\<open>a + b\<close>.\<close>

fun numAdd :: "number \<Rightarrow> number \<Rightarrow> number" where
  "numAdd (Finite a) (Finite b) = toDouble (a + b)"
| "numAdd NaN b = NaN"
| "numAdd a NaN = NaN"
| "numAdd PlusInfinity MinusInfinity = NaN"
| "numAdd MinusInfinity PlusInfinity = NaN"
| "numAdd PlusInfinity b = PlusInfinity"
| "numAdd a PlusInfinity = PlusInfinity"
| "numAdd MinusInfinity b = MinusInfinity"
| "numAdd a MinusInfinity = MinusInfinity"

text \<open>
  \<^verbatim>\<open>a * c\<close> and \<^verbatim>\<open>a / c\<close> for a finite constant \<open>c > 0\<close> (the program uses 100): the
  infinities and \<^verbatim>\<open>NaN\<close> stay what they are.
\<close>

fun numTimes :: "number \<Rightarrow> rat \<Rightarrow> number" where
  "numTimes (Finite a) c = toDouble (a * c)"
| "numTimes a c = a"

fun numOver :: "number \<Rightarrow> rat \<Rightarrow> number" where
  "numOver (Finite a) c = toDouble (a / c)"
| "numOver a c = a"

text \<open>\<^verbatim>\<open>Math.round\<close>: the nearest integer, a tie going up. It is a double whenever its
  argument is one.\<close>

fun mathRound :: "number \<Rightarrow> number" where
  "mathRound (Finite a) = Finite (of_int \<lfloor>a + 1 / 2\<rfloor>)"
| "mathRound a = a"

declare mathRound.simps(1) [simp del]

text \<open>\<^verbatim>\<open>a >= b\<close>, false as soon as one side is \<^verbatim>\<open>NaN\<close>.\<close>

fun numGe :: "number \<Rightarrow> number \<Rightarrow> bool" where
  "numGe NaN b = False"
| "numGe a NaN = False"
| "numGe (Finite a) (Finite b) = (b \<le> a)"
| "numGe PlusInfinity b = True"
| "numGe a MinusInfinity = True"
| "numGe a b = False"

text \<open>
  Amounts are modelled as integers (\<^typ>\<open>int\<close>); the number that an amount field holds
  is the double nearest to it, which is the integer itself up to \<open>2 ^ 53\<close>.
\<close>

definition amountNumber :: "int \<Rightarrow> number" where
  "amountNumber a = toDouble (of_int a)"

section \<open>Ledger entities\<close>

record txin =
  txHash :: string
  outputIndex :: nat

record txout =
  address :: string
  amount :: int

record transaction =
  inputs :: "txin list"
  outputs :: "txout list"
  signatures :: "string list"
  isCoinbase :: bool
  timestamp :: nat
  hash :: string

record wallet =
  privateKey :: string
  publicKey :: string
  walletAddress :: string

text \<open>
  A JavaScript \<^verbatim>\<open>Map\<close> keeps its entries in insertion order: \<^verbatim>\<open>set\<close> on a present key
  replaces the value in place, on an absent key appends; \<^verbatim>\<open>delete\<close> removes the entry.
  The UTXO set (keys \<^verbatim>\<open>"txHash:outIdx"\<close>) and the process-wide \<^verbatim>\<open>WALLET_REGISTRY\<close> are such
  maps; the registry is passed to the functions that read it.
\<close>

definition mapGet :: "('k \<times> 'v) list \<Rightarrow> 'k \<Rightarrow> 'v option" where
  "mapGet m k = map_of m k"

fun mapSet :: "('k \<times> 'v) list \<Rightarrow> 'k \<Rightarrow> 'v \<Rightarrow> ('k \<times> 'v) list" where
  "mapSet [] k v = [(k, v)]"
| "mapSet (e # m) k v = (if fst e = k then (k, v) # m else e # mapSet m k v)"

definition mapDelete :: "('k \<times> 'v) list \<Rightarrow> 'k \<Rightarrow> ('k \<times> 'v) list" where
  "mapDelete m k = filter (\<lambda>e. fst e \<noteq> k) m"

type_synonym registry = "(string \<times> wallet) list"
type_synonym utxoMap = "(string \<times> txout) list"

definition nthOpt :: "'a list \<Rightarrow> nat \<Rightarrow> 'a option" where
  "nthOpt xs i = (if i < length xs then Some (xs ! i) else None)"

definition derivePublicKey :: "string \<Rightarrow> string" where
  "derivePublicKey priv = sha256 priv"

definition deriveAddress :: "string \<Rightarrow> string" where
  "deriveAddress pub = take 40 (sha256 pub)"

definition signData :: "string \<Rightarrow> string \<Rightarrow> string" where
  "signData d priv = sha256 (d @ priv)"

text \<open>The signature argument is \<open>None\<close> where the source passes \<^verbatim>\<open>undefined\<close>.\<close>

definition verifySignature :: "registry \<Rightarrow> string \<Rightarrow> string option \<Rightarrow> string \<Rightarrow> bool" where
  "verifySignature reg d signature pub =
     (case mapGet reg pub of
        None \<Rightarrow> False
      | Some w \<Rightarrow> Some (sha256 (d @ privateKey w)) = signature)"

definition utxoKey :: "string \<Rightarrow> nat \<Rightarrow> string" where
  "utxoKey h idx = h @ '':'' @ numberToString idx"

definition jsonInput :: "txin \<Rightarrow> string" where
  \<open>jsonInput inp =
     ''{"txHash":'' @ jsonString (txHash inp) @
     '',"outputIndex":'' @ numberToString (outputIndex inp) @ ''}''\<close>

definition jsonOutput :: "txout \<Rightarrow> string" where
  \<open>jsonOutput out =
     ''{"address":'' @ jsonString (address out) @
     '',"amount":'' @ amountToString (amount out) @ ''}''\<close>

definition computeHash :: "transaction \<Rightarrow> string" where
  \<open>computeHash tx =
     sha256 (''{"inputs":'' @ jsonArray (map jsonInput (inputs tx)) @
             '',"outputs":'' @ jsonArray (map jsonOutput (outputs tx)) @
             '',"timestamp":'' @ numberToString (timestamp tx) @
             '',"isCoinbase":'' @ (if isCoinbase tx then ''true'' else ''false'') @ ''}'')\<close>

text \<open>The constructor; \<open>now\<close> is the value of \<^verbatim>\<open>Date.now()\<close>.\<close>

definition newTransaction :: "txin list \<Rightarrow> txout list \<Rightarrow> bool \<Rightarrow> nat \<Rightarrow> transaction" where
  "newTransaction ins outs cb now =
     (let tx = \<lparr>inputs = ins, outputs = outs, signatures = [], isCoinbase = cb,
                timestamp = now, hash = []\<rparr>
      in tx\<lparr>hash := computeHash tx\<rparr>)"

definition sign :: "transaction \<Rightarrow> string \<Rightarrow> transaction" where
  "sign tx priv =
     tx\<lparr>signatures := signatures tx @ replicate (length (inputs tx)) (signData (hash tx) priv)\<rparr>"

text \<open>
  The first loop of \<^verbatim>\<open>verify\<close>, from input number \<open>i\<close> on: \<open>False\<close> at the first input
  whose UTXO is absent or whose signature no registered wallet of the owner's address made.
\<close>

fun verifyInputs :: "registry \<Rightarrow> transaction \<Rightarrow> utxoMap \<Rightarrow> nat \<Rightarrow> txin list \<Rightarrow> bool" where
  "verifyInputs reg tx utxos i [] = True"
| "verifyInputs reg tx utxos i (inp # rest) =
     (case mapGet utxos (utxoKey (txHash inp) (outputIndex inp)) of
        None \<Rightarrow> False
      | Some utxo \<Rightarrow>
          if list_ex (\<lambda>e. walletAddress (snd e) = address utxo \<and>
                          verifySignature reg (hash tx) (nthOpt (signatures tx) i) (fst e)) reg
          then verifyInputs reg tx utxos (i + 1) rest
          else False)"

text \<open>
  \<^verbatim>\<open>verify\<close>: the loop over the inputs, then the two sums, which \<^verbatim>\<open>reduce\<close> adds up as
  doubles from 0, and their comparison.
\<close>

definition verify :: "registry \<Rightarrow> transaction \<Rightarrow> utxoMap \<Rightarrow> bool" where
  "verify reg tx utxos =
     (if isCoinbase tx then True
      else if \<not> verifyInputs reg tx utxos 0 (inputs tx) then False
      else let inputSum =
                 foldl (\<lambda>sum inp.
                          numAdd sum
                            (case mapGet utxos (utxoKey (txHash inp) (outputIndex inp)) of
                               Some utxo \<Rightarrow> amountNumber (amount utxo) | None \<Rightarrow> Finite 0))
                       (Finite 0) (inputs tx);
               outputSum =
                 foldl (\<lambda>sum out. numAdd sum (amountNumber (amount out))) (Finite 0) (outputs tx)
           in numGe inputSum outputSum)"

definition createCoinbase :: "string \<Rightarrow> int \<Rightarrow> nat \<Rightarrow> nat \<Rightarrow> transaction" where
  "createCoinbase addr reward blockHeight now =
     newTransaction [\<lparr>txHash = repeat ''0'' 64, outputIndex = blockHeight\<rparr>]
                    [\<lparr>address = addr, amount = reward\<rparr>] True now"

section \<open>Blocks and proof of work\<close>

definition MINING_REWARD :: int where
  "MINING_REWARD = 50"

record block =
  height :: nat
  previousHash :: string
  transactions :: "transaction list"
  difficulty :: nat
  blockTimestamp :: nat
  merkleRoot :: string
  nonce :: nat
  blockHash :: string
  miningTime :: nat

definition newBlock :: "nat \<Rightarrow> string \<Rightarrow> transaction list \<Rightarrow> nat \<Rightarrow> nat \<Rightarrow> block" where
  "newBlock h prev txs d now =
     \<lparr>height = h, previousHash = prev, transactions = txs, difficulty = d,
      blockTimestamp = now, merkleRoot = computeRoot (map hash txs), nonce = 0,
      blockHash = [], miningTime = 0\<rparr>"

definition getHeaderString :: "block \<Rightarrow> string" where
  "getHeaderString b =
     numberToString (height b) @ '':'' @ previousHash b @ '':'' @ merkleRoot b @ '':'' @
     numberToString (blockTimestamp b) @ '':'' @ numberToString (difficulty b) @ '':'' @
     numberToString (nonce b)"

text \<open>
  \<^verbatim>\<open>this.nonce++\<close> on a double: exact up to \<open>2 ^ 53\<close>, where adding one no longer changes
  the value. A new block starts at nonce 0, so the search never holds a nonce above
  \<open>2 ^ 53\<close>.
\<close>

definition incrementNonce :: "nat \<Rightarrow> nat" where
  "incrementNonce n = (if n < 2 ^ 53 then n + 1 else n)"

text \<open>
  The \<^verbatim>\<open>do ... while\<close> loop of \<^verbatim>\<open>mine\<close>. It need not end, so its result is an option:
  \<open>None\<close> stands for a search that runs forever.
\<close>

partial_function (option) mineLoop :: "block \<Rightarrow> nat \<Rightarrow> (block \<times> nat) option" where
  "mineLoop b attempts =
     (if startsWith (sha256 (getHeaderString (b\<lparr>nonce := incrementNonce (nonce b)\<rparr>)))
                    (repeat ''0'' (difficulty b))
      then Some (b\<lparr>nonce := incrementNonce (nonce b),
                   blockHash := sha256 (getHeaderString (b\<lparr>nonce := incrementNonce (nonce b)\<rparr>))\<rparr>,
                 attempts + 1)
      else mineLoop
             (b\<lparr>nonce := incrementNonce (nonce b),
                blockHash := sha256 (getHeaderString (b\<lparr>nonce := incrementNonce (nonce b)\<rparr>))\<rparr>)
             (attempts + 1))"

declare mineLoop.simps [code]

text \<open>
  \<^verbatim>\<open>mine\<close> returns the mined block and the number of attempts; \<open>elapsed\<close> is the rounded
  difference of the two \<^verbatim>\<open>performance.now()\<close> readings.
\<close>

definition mine :: "block \<Rightarrow> nat \<Rightarrow> (block \<times> nat) option" where
  "mine b elapsed =
     (case mineLoop b 0 of
        None \<Rightarrow> None
      | Some r \<Rightarrow> Some ((fst r)\<lparr>miningTime := elapsed\<rparr>, snd r))"

section \<open>The blockchain state machine\<close>

record miningStats =
  totalBlocks :: nat
  totalHashes :: nat
  totalTime :: nat

record blockchain =
  chain :: "block list"
  utxoSet :: utxoMap
  mempool :: "transaction list"
  chainDifficulty :: nat
  stats :: miningStats

datatype error = InvalidTransaction | TypeError

text \<open>
  The observers \<^verbatim>\<open>onMempoolUpdate\<close> and \<^verbatim>\<open>onBlockMined\<close> only read the state and are left
  out. A function that can throw returns the error on the left.
\<close>

definition newBlockchain :: "nat \<Rightarrow> blockchain" where
  "newBlockchain d =
     \<lparr>chain = [], utxoSet = [], mempool = [], chainDifficulty = d,
      stats = \<lparr>totalBlocks = 0, totalHashes = 0, totalTime = 0\<rparr>\<rparr>"

definition processTx :: "utxoMap \<Rightarrow> transaction \<Rightarrow> utxoMap" where
  "processTx utxos tx =
     (let spent = (if \<not> isCoinbase tx
                   then foldl (\<lambda>m inp. mapDelete m (utxoKey (txHash inp) (outputIndex inp)))
                              utxos (inputs tx)
                   else utxos)
      in foldl (\<lambda>m e. mapSet m (utxoKey (hash tx) (snd e))
                              \<lparr>address = address (fst e), amount = amount (fst e)\<rparr>)
               spent (zip (outputs tx) [0..<length (outputs tx)]))"

definition processBlockUTXOs :: "utxoMap \<Rightarrow> block \<Rightarrow> utxoMap" where
  "processBlockUTXOs utxos b = foldl processTx utxos (transactions b)"

definition addStats :: "miningStats \<Rightarrow> nat \<Rightarrow> nat \<Rightarrow> miningStats" where
  "addStats s attempts time =
     \<lparr>totalBlocks = totalBlocks s + 1, totalHashes = totalHashes s + attempts,
      totalTime = totalTime s + time\<rparr>"

definition initialize ::
  "blockchain \<Rightarrow> string \<Rightarrow> nat \<Rightarrow> nat \<Rightarrow> nat \<Rightarrow> (blockchain \<times> block) option" where
  "initialize bc genesisAddress txNow blockNow elapsed =
     (let coinbase = createCoinbase genesisAddress (MINING_REWARD * 100) 0 txNow;
          genesis = newBlock 0 (repeat ''0'' 64) [coinbase] (chainDifficulty bc) blockNow
      in case mine genesis elapsed of
           None \<Rightarrow> None
         | Some r \<Rightarrow>
             Some (bc\<lparr>chain := chain bc @ [fst r],
                      utxoSet := processBlockUTXOs (utxoSet bc) (fst r),
                      stats := addStats (stats bc) (snd r) (miningTime (fst r))\<rparr>,
                   fst r))"

definition addToMempool ::
  "registry \<Rightarrow> blockchain \<Rightarrow> transaction \<Rightarrow> (error + bool) \<times> blockchain" where
  "addToMempool reg bc tx =
     (if \<not> isCoinbase tx \<and> \<not> verify reg tx (utxoSet bc)
      then (Inl InvalidTransaction, bc)
      else (Inr True, bc\<lparr>mempool := mempool bc @ [tx]\<rparr>))"

text \<open>
  \<^verbatim>\<open>mineBlock\<close>: \<open>None\<close> when the search never ends, \<open>Some (Inl TypeError)\<close> when the chain
  is empty (\<^verbatim>\<open>this.chain[this.chain.length - 1].hash\<close> reads a field of \<^verbatim>\<open>undefined\<close>).
\<close>

definition mineBlock ::
  "blockchain \<Rightarrow> string \<Rightarrow> nat \<Rightarrow> nat \<Rightarrow> nat \<Rightarrow> (error + blockchain \<times> block) option" where
  "mineBlock bc minerAddress txNow blockNow elapsed =
     (let coinbase = createCoinbase minerAddress MINING_REWARD (length (chain bc)) txNow;
          txs = coinbase # mempool bc
      in if chain bc = [] then Some (Inl TypeError)
         else let prevHash = blockHash (last (chain bc));
                  b = newBlock (length (chain bc)) prevHash txs (chainDifficulty bc) blockNow
              in case mine b elapsed of
                   None \<Rightarrow> None
                 | Some r \<Rightarrow>
                     Some (Inr (bc\<lparr>chain := chain bc @ [fst r],
                                   utxoSet := processBlockUTXOs (utxoSet bc) (fst r),
                                   mempool := [],
                                   stats := addStats (stats bc) (snd r) (miningTime (fst r))\<rparr>,
                                fst r)))"

text \<open>\<^verbatim>\<open>getBalance\<close>: the amounts of the address are added up as doubles from 0, in the
  order of the \<^verbatim>\<open>Map\<close>; the result is \<^verbatim>\<open>Math.round(balance * 100) / 100\<close>.\<close>

definition getBalance :: "blockchain \<Rightarrow> string \<Rightarrow> number" where
  "getBalance bc addr =
     (let balance = foldl (\<lambda>bal e. if address (snd e) = addr
                                    then numAdd bal (amountNumber (amount (snd e))) else bal)
                          (Finite 0) (utxoSet bc)
      in numOver (mathRound (numTimes balance 100)) 100)"

datatype validation = Valid | Invalid nat string

text \<open>
  The loop of \<^verbatim>\<open>validateChain\<close> at index \<open>i\<close>: \<open>prev\<close> is \<^verbatim>\<open>chain[i - 1]\<close> and the list holds
  \<^verbatim>\<open>chain[i], chain[i + 1], ...\<close>.
\<close>

fun validateFrom :: "nat \<Rightarrow> block \<Rightarrow> block list \<Rightarrow> validation" where
  "validateFrom i prev [] = Valid"
| "validateFrom i prev (b # rest) =
     (if previousHash b \<noteq> blockHash prev then Invalid i ''broken hash link''
      else if \<not> startsWith (blockHash b) (repeat ''0'' (difficulty b)) then Invalid i ''invalid PoW''
      else if sha256 (getHeaderString b) \<noteq> blockHash b then Invalid i ''hash mismatch''
      else if computeRoot (map hash (transactions b)) \<noteq> merkleRoot b
      then Invalid i ''merkle mismatch''
      else validateFrom (i + 1) b rest)"

definition validateChain :: "block list \<Rightarrow> validation" where
  "validateChain c = (case c of [] \<Rightarrow> Valid | g # rest \<Rightarrow> validateFrom 1 g rest)"

section \<open>The peer protocol handlers of \<^verbatim>\<open>network/node.js\<close>\<close>

text \<open>
  A serialized block or transaction has the fields of the object it was made from, so the
  wire data are values of the same record types: the handlers are modelled on well-formed
  messages, on which the reconstruction itself cannot throw. Persistence (\<^verbatim>\<open>saveChain\<close>)
  and logging are left out; what a handler sends is its second result.
\<close>

datatype reply = NoReply | RequestChain | BroadcastNewBlock block | BroadcastNewTx transaction

definition rebuildTx :: "nat \<Rightarrow> transaction \<Rightarrow> transaction" where
  "rebuildTx now txd =
     (newTransaction (inputs txd) (outputs txd) (isCoinbase txd) now)
       \<lparr>timestamp := timestamp txd, hash := hash txd, signatures := signatures txd\<rparr>"

definition rebuildBlock :: "nat \<Rightarrow> block \<Rightarrow> block" where
  "rebuildBlock now blockData =
     (newBlock (height blockData) (previousHash blockData)
               (map (rebuildTx now) (transactions blockData)) (difficulty blockData) now)
       \<lparr>blockTimestamp := blockTimestamp blockData, merkleRoot := merkleRoot blockData,
        nonce := nonce blockData, blockHash := blockHash blockData,
        miningTime := miningTime blockData\<rparr>"

text \<open>
  \<^verbatim>\<open>rebuildChainFromData\<close> names the module's \<^verbatim>\<open>blockchain\<close>, whatever \<^verbatim>\<open>this\<close> it is called
  with: each block is pushed onto the node's own chain and applied to its own UTXO set.
\<close>

definition rebuildChainFromData :: "nat \<Rightarrow> blockchain \<Rightarrow> block list \<Rightarrow> blockchain" where
  "rebuildChainFromData now bc chainData =
     foldl (\<lambda>s blockData.
              s\<lparr>chain := chain s @ [rebuildBlock now blockData],
                utxoSet := processBlockUTXOs (utxoSet s) (rebuildBlock now blockData)\<rparr>)
           bc chainData"

definition handleNewBlock :: "nat \<Rightarrow> blockchain \<Rightarrow> block \<Rightarrow> error + blockchain \<times> reply" where
  "handleNewBlock now bc blockData =
     (if chain bc = [] then Inl TypeError
      else if previousHash blockData \<noteq> blockHash (last (chain bc))
      then (if height blockData > length (chain bc) then Inr (bc, RequestChain)
            else Inr (bc, NoReply))
      else if \<not> startsWith (blockHash blockData) (repeat ''0'' (difficulty blockData))
      then Inr (bc, NoReply)
      else let b = rebuildBlock now blockData
           in Inr (bc\<lparr>chain := chain bc @ [b],
                      utxoSet := processBlockUTXOs (utxoSet bc) b,
                      mempool := filter (\<lambda>t. hash t \<notin> set (map hash (transactions b)))
                                        (mempool bc)\<rparr>,
                   BroadcastNewBlock blockData))"

text \<open>
  \<^verbatim>\<open>handleChainResponse\<close>: the first replay, meant for a temporary chain, runs on the node's
  chain as well (see \<^verbatim>\<open>rebuildChainFromData\<close>); then chain and UTXO set are emptied and the
  data are replayed again.
\<close>

definition handleChainResponse :: "nat \<Rightarrow> blockchain \<Rightarrow> block list \<Rightarrow> blockchain" where
  "handleChainResponse now bc chainData =
     (if length chainData \<le> length (chain bc) then bc
      else let tried = rebuildChainFromData now bc chainData
           in rebuildChainFromData now (tried\<lparr>chain := [], utxoSet := []\<rparr>) chainData)"

definition handleNewTx :: "nat \<Rightarrow> registry \<Rightarrow> blockchain \<Rightarrow> transaction \<Rightarrow> blockchain \<times> reply" where
  "handleNewTx now reg bc txData =
     (case find (\<lambda>t. hash t = hash txData) (mempool bc) of
        Some existing \<Rightarrow> (bc, NoReply)
      | None \<Rightarrow>
          (case addToMempool reg bc (rebuildTx now txData) of
             (Inl e, bc') \<Rightarrow> (bc', NoReply)
           | (Inr ok, bc') \<Rightarrow> (bc', BroadcastNewTx txData)))"

section \<open>Vocabulary of the specification\<close>

text \<open>
  The three failure causes that the specification names for \<^verbatim>\<open>verify\<close>, each written from
  its words and not from the code of \<^verbatim>\<open>verify\<close>. \<open>unknownInput\<close>: an input whose UTXO is
  absent. \<open>invalidSignature\<close>: an input whose UTXO is present, while the signature at the
  input's position is not the signature over the transaction hash (\<^verbatim>\<open>signData\<close>) of any
  registered wallet that has the owner's address. \<open>insufficientFunds\<close>: the total of the
  resolved input amounts is less than the total of the output amounts, as integers.
\<close>

definition unknownInput :: "transaction \<Rightarrow> utxoMap \<Rightarrow> bool" where
  "unknownInput tx utxos =
     list_ex (\<lambda>inp. mapGet utxos (utxoKey (txHash inp) (outputIndex inp)) = None) (inputs tx)"

definition ownerSigned :: "registry \<Rightarrow> transaction \<Rightarrow> nat \<Rightarrow> txout \<Rightarrow> bool" where
  "ownerSigned reg tx i utxo =
     list_ex (\<lambda>e. walletAddress (snd e) = address utxo \<and>
                   nthOpt (signatures tx) i = Some (signData (hash tx) (privateKey (snd e)))) reg"

definition invalidSignature :: "registry \<Rightarrow> transaction \<Rightarrow> utxoMap \<Rightarrow> bool" where
  "invalidSignature reg tx utxos =
     list_ex (\<lambda>i. case mapGet utxos (utxoKey (txHash (inputs tx ! i)) (outputIndex (inputs tx ! i))) of
                    None \<Rightarrow> False
                  | Some utxo \<Rightarrow> \<not> ownerSigned reg tx i utxo)
             [0..<length (inputs tx)]"

definition resolvedAmounts :: "transaction \<Rightarrow> utxoMap \<Rightarrow> int list" where
  "resolvedAmounts tx utxos =
     map (\<lambda>inp. case mapGet utxos (utxoKey (txHash inp) (outputIndex inp)) of
                  Some utxo \<Rightarrow> amount utxo | None \<Rightarrow> 0)
         (inputs tx)"

definition insufficientFunds :: "transaction \<Rightarrow> utxoMap \<Rightarrow> bool" where
  "insufficientFunds tx utxos =
     (sum_list (resolvedAmounts tx utxos) < sum_list (map amount (outputs tx)))"

text \<open>
  The amounts of a transaction are within the range on which doubles add exactly when the
  absolute values of the resolved input amounts, and those of the output amounts, add up
  to at most \<open>2 ^ 53\<close>.
\<close>

definition safeTotals :: "transaction \<Rightarrow> utxoMap \<Rightarrow> bool" where
  "safeTotals tx utxos =
     (sum_list (map abs (resolvedAmounts tx utxos)) \<le> 2 ^ 53 \<and>
      sum_list (map abs (map amount (outputs tx))) \<le> 2 ^ 53)"

text \<open>
  The balance of an address as the specification means it: the sum of the amounts of the
  unspent outputs of that address. \<open>heldAmounts\<close> lists them.
\<close>

definition heldAmounts :: "blockchain \<Rightarrow> string \<Rightarrow> int list" where
  "heldAmounts bc addr = map amount (filter (\<lambda>utxo. address utxo = addr) (map snd (utxoSet bc)))"

definition exactBalance :: "blockchain \<Rightarrow> string \<Rightarrow> int" where
  "exactBalance bc addr = sum_list (heldAmounts bc addr)"

text \<open>A nonce \<open>n\<close> meets the difficulty of a block: the digest of the header string with
  that nonce has \<open>difficulty\<close> leading zero characters.\<close>

definition meetsDifficulty :: "block \<Rightarrow> nat \<Rightarrow> bool" where
  "meetsDifficulty b n =
     startsWith (sha256 (getHeaderString (b\<lparr>nonce := n\<rparr>))) (repeat ''0'' (difficulty b))"

text \<open>
  A double spend: two confirmed transactions at different places of the chain, neither a
  coinbase, with an input \<open>(txHash, outputIndex)\<close> in common.
\<close>

definition spentKeys :: "transaction \<Rightarrow> (string \<times> nat) list" where
  "spentKeys tx =
     (if isCoinbase tx then [] else map (\<lambda>inp. (txHash inp, outputIndex inp)) (inputs tx))"

fun conflicting :: "transaction list \<Rightarrow> bool" where
  "conflicting [] = False"
| "conflicting (tx # rest) =
     (list_ex (\<lambda>other. list_ex (\<lambda>k. k \<in> set (spentKeys other)) (spentKeys tx)) rest \<or>
      conflicting rest)"

definition hasDoubleSpend :: "block list \<Rightarrow> bool" where
  "hasDoubleSpend c = conflicting (concat (map transactions c))"

text \<open>Mutating transaction \<open>j\<close> of block \<open>i\<close> of a chain by \<open>f\<close>.\<close>

definition tamperTx ::
  "nat \<Rightarrow> nat \<Rightarrow> (transaction \<Rightarrow> transaction) \<Rightarrow> block list \<Rightarrow> block list" where
  "tamperTx i j f c =
     c[i := (c ! i)\<lparr>transactions := (transactions (c ! i))[j := f (transactions (c ! i) ! j)]\<rparr>]"

section \<open>A small network, used for the concrete runs\<close>

text \<open>
  A chain of difficulty 0 (\<^verbatim>\<open>new Blockchain(0)\<close>), initialized to the address of a wallet
  with private key \<^verbatim>\<open>alice-key\<close>; the registry holds that wallet. \<open>payBob\<close> and \<open>payCarol\<close>
  are what \<^verbatim>\<open>createTransaction\<close> builds and signs when the wallet pays its whole genesis
  output once to \<^verbatim>\<open>bob\<close> and once to \<^verbatim>\<open>carol\<close>.
\<close>

definition aliceWallet :: wallet where
  "aliceWallet = \<lparr>privateKey = ''alice-key'', publicKey = derivePublicKey ''alice-key'',
                  walletAddress = deriveAddress (derivePublicKey ''alice-key'')\<rparr>"

definition demoRegistry :: registry where
  "demoRegistry = [(publicKey aliceWallet, aliceWallet)]"

definition genesisCoinbase :: transaction where
  "genesisCoinbase = createCoinbase (walletAddress aliceWallet) (MINING_REWARD * 100) 0 1"

definition genesisBlock :: block where
  "genesisBlock =
     (newBlock 0 (repeat ''0'' 64) [genesisCoinbase] 0 2)
       \<lparr>nonce := 1,
        blockHash := sha256 (getHeaderString
                       ((newBlock 0 (repeat ''0'' 64) [genesisCoinbase] 0 2)\<lparr>nonce := 1\<rparr>)),
        miningTime := 3\<rparr>"

definition genesisState :: blockchain where
  "genesisState =
     (case initialize (newBlockchain 0) (walletAddress aliceWallet) 1 2 3 of
        Some r \<Rightarrow> fst r | None \<Rightarrow> newBlockchain 0)"

definition payBob :: transaction where
  "payBob = sign (newTransaction [\<lparr>txHash = hash genesisCoinbase, outputIndex = 0\<rparr>]
                                 [\<lparr>address = ''bob'', amount = 5000\<rparr>] False 10) ''alice-key''"

definition payCarol :: transaction where
  "payCarol = sign (newTransaction [\<lparr>txHash = hash genesisCoinbase, outputIndex = 0\<rparr>]
                                   [\<lparr>address = ''carol'', amount = 5000\<rparr>] False 11) ''alice-key''"

definition bothPending :: blockchain where
  "bothPending =
     snd (addToMempool demoRegistry (snd (addToMempool demoRegistry genesisState payBob)) payCarol)"

definition unknownSpend :: transaction where
  "unknownSpend = sign (newTransaction [\<lparr>txHash = ''no-such-transaction'', outputIndex = 0\<rparr>]
                                       [\<lparr>address = ''bob'', amount = 1\<rparr>] False 12) ''alice-key''"

text \<open>
  Two more spends of the genesis output: one that carries no signature, and one, signed by
  the wallet, that pays out 5001 of the 5000 it spends.
\<close>

definition unsignedSpend :: transaction where
  "unsignedSpend = newTransaction [\<lparr>txHash = hash genesisCoinbase, outputIndex = 0\<rparr>]
                                  [\<lparr>address = ''bob'', amount = 5000\<rparr>] False 13"

definition overSpend :: transaction where
  "overSpend = sign (newTransaction [\<lparr>txHash = hash genesisCoinbase, outputIndex = 0\<rparr>]
                                    [\<lparr>address = ''bob'', amount = 5001\<rparr>] False 14) ''alice-key''"

text \<open>
  A UTXO set in which the wallet holds one output of \<open>2 ^ 53 = 9007199254740992\<close>, and the
  wallet's signed payment of that output to three receivers, of \<open>2 ^ 53\<close>, 1 and 1.
\<close>

definition largeCoinbase :: transaction where
  "largeCoinbase = createCoinbase (walletAddress aliceWallet) 9007199254740992 0 1"

definition largeUtxos :: utxoMap where
  "largeUtxos = processTx [] largeCoinbase"

definition roundedSpend :: transaction where
  "roundedSpend =
     sign (newTransaction [\<lparr>txHash = hash largeCoinbase, outputIndex = 0\<rparr>]
                          [\<lparr>address = ''bob'', amount = 9007199254740992\<rparr>,
                           \<lparr>address = ''carol'', amount = 1\<rparr>,
                           \<lparr>address = ''dave'', amount = 1\<rparr>] False 15) ''alice-key''"

text \<open>What a peer can send: a transaction that only claims to be a coinbase, a block whose
  hash field is not the digest of its header, a chain whose blocks are not linked.\<close>

definition forgedCoinbase :: transaction where
  "forgedCoinbase = createCoinbase ''mallory'' 1000000 7 30"

definition forgedBlock :: block where
  "forgedBlock = \<lparr>height = 1, previousHash = blockHash genesisBlock,
                  transactions = [forgedCoinbase], difficulty = 0, blockTimestamp = 40,
                  merkleRoot = ''not-a-root'', nonce = 0, blockHash = [], miningTime = 0\<rparr>"

definition unlinkedBlock :: block where
  "unlinkedBlock = \<lparr>height = 0, previousHash = ''x'', transactions = [], difficulty = 0,
                    blockTimestamp = 0, merkleRoot = [], nonce = 0, blockHash = ''y'',
                    miningTime = 0\<rparr>"

text \<open>The chain after one \<^verbatim>\<open>mineBlock\<close> on the initialized chain, and its second block.\<close>

definition minedBlock :: block where
  "minedBlock =
     (newBlock 1 (blockHash genesisBlock) [createCoinbase ''miner'' MINING_REWARD 1 20] 0 21)
       \<lparr>nonce := 1,
        blockHash := sha256 (getHeaderString
           ((newBlock 1 (blockHash genesisBlock) [createCoinbase ''miner'' MINING_REWARD 1 20] 0 21)
              \<lparr>nonce := 1\<rparr>)),
        miningTime := 22\<rparr>"

definition minedChain :: "block list" where
  "minedChain =
     (case mineBlock genesisState ''miner'' 20 21 22 of
        Some (Inr r) \<Rightarrow> chain (fst r) | _ \<Rightarrow> [])"

text \<open>A genesis-only chain as \<^verbatim>\<open>rebuildChainFromData\<close> loads it from a stored chain file.\<close>

definition storedGenesis :: block where
  "storedGenesis =
     \<lparr>height = 0, previousHash = repeat ''0'' 64,
      transactions =
        [\<lparr>inputs = [\<lparr>txHash = repeat ''0'' 64, outputIndex = 0\<rparr>],
          outputs = [\<lparr>address = ''founder'', amount = 5000\<rparr>], signatures = [],
          isCoinbase = True, timestamp = 0, hash = ''stored-genesis-coinbase''\<rparr>],
      difficulty = 0, blockTimestamp = 0, merkleRoot = ''stored-genesis-coinbase'',
      nonce = 0, blockHash = ''stored-genesis'', miningTime = 0\<rparr>"

definition loadedGenesis :: blockchain where
  "loadedGenesis = rebuildChainFromData 0 (newBlockchain 0) [storedGenesis]"

text \<open>
  Two more stored genesis blocks. The coinbase of \<open>richStored\<close> pays
  \<open>2 ^ 60 = 1152921504606846976\<close> to the address that mines next. The coinbase of
  \<open>collidingStored\<close> carries as its hash the hash of the coinbase that \<^verbatim>\<open>mineBlock\<close> creates
  for \<^verbatim>\<open>miner\<close> at time 20. \<open>minedOn g\<close> is the block that \<^verbatim>\<open>mineBlock\<close> then appends to a
  chain of difficulty 0 that ends with \<open>g\<close>.
\<close>

definition richStored :: block where
  "richStored =
     storedGenesis\<lparr>transactions :=
        [\<lparr>inputs = [\<lparr>txHash = repeat ''0'' 64, outputIndex = 0\<rparr>],
          outputs = [\<lparr>address = ''miner'', amount = 1152921504606846976\<rparr>], signatures = [],
          isCoinbase = True, timestamp = 0, hash = ''stored-genesis-coinbase''\<rparr>]\<rparr>"

definition richGenesis :: blockchain where
  "richGenesis = rebuildChainFromData 0 (newBlockchain 0) [richStored]"

definition collidingStored :: block where
  "collidingStored =
     storedGenesis\<lparr>transactions :=
        [\<lparr>inputs = [\<lparr>txHash = repeat ''0'' 64, outputIndex = 0\<rparr>],
          outputs = [\<lparr>address = ''founder'', amount = 5000\<rparr>], signatures = [],
          isCoinbase = True, timestamp = 0,
          hash = hash (createCoinbase ''miner'' MINING_REWARD 1 20)\<rparr>]\<rparr>"

definition collidingGenesis :: blockchain where
  "collidingGenesis = rebuildChainFromData 0 (newBlockchain 0) [collidingStored]"

definition minedOn :: "block \<Rightarrow> block" where
  "minedOn g =
     (newBlock 1 (blockHash g) [createCoinbase ''miner'' MINING_REWARD 1 20] 0 21)
       \<lparr>nonce := 1,
        blockHash := sha256 (getHeaderString
           ((newBlock 1 (blockHash g) [createCoinbase ''miner'' MINING_REWARD 1 20] 0 21)
              \<lparr>nonce := 1\<rparr>)),
        miningTime := 22\<rparr>"

text \<open>
  A block of difficulty 1 as the constructor builds it at time 14 on the previous hash
  \<^verbatim>\<open>p\<close>, from one transaction whose hash field is \<^verbatim>\<open>m\<close>; its header string is
  \<^verbatim>\<open>0:p:m:14:1:\<close> followed by the nonce. \<open>stalledBlock\<close> is the same block with its nonce at
  \<open>2 ^ 53 = 9007199254740992\<close>.
\<close>

definition searchBlock :: block where
  "searchBlock = newBlock 0 ''p'' [forgedCoinbase\<lparr>hash := ''m''\<rparr>] 1 14"

definition stalledBlock :: block where
  "stalledBlock = searchBlock\<lparr>nonce := 9007199254740992\<rparr>"

section \<open>Properties of the numbers\<close>

lemma bitLength_le: "n < 2 ^ k \<Longrightarrow> bitLength n \<le> k"
proof (induction k arbitrary: n)
  case 0
  then show ?case by (simp add: bitLength.simps)
next
  case (Suc k)
  show ?case
  proof (cases "n \<le> 0")
    case True
    then show ?thesis by (simp add: bitLength.simps)
  next
    case False
    from Suc.prems have "n div 2 < 2 ^ k" by simp
    then have "bitLength (n div 2) \<le> k" by (rule Suc.IH)
    with False show ?thesis by (subst bitLength.simps) simp
  qed
qed

lemma bitLength_1: "bitLength 1 = 1"
  by (simp add: bitLength.simps)

lemma roundHalfEven_int: "roundHalfEven (of_int k) = k"
  by (simp add: roundHalfEven_def)

lemma quotient_of_abs_int: "quotient_of \<bar>rat_of_int x\<bar> = (\<bar>x\<bar>, 1)"
  using quotient_of_rat_of_int [of "\<bar>x\<bar>"] by simp

lemma exponentOf_int: "\<bar>x\<bar> < 2 ^ 53 \<Longrightarrow> exponentOf (of_int x) \<le> 52"
proof -
  assume b: "\<bar>x\<bar> < 2 ^ 53"
  from b have "bitLength \<bar>x\<bar> \<le> 53" by (rule bitLength_le)
  then show ?thesis
    by (simp add: exponentOf_def Let_def bitLength_1 quotient_of_abs_int)
qed

lemma toDouble_int_below:
  assumes "\<bar>x\<bar> < 2 ^ 53"
  shows "toDouble (of_int x) = Finite (of_int x)"
proof (cases "x = 0")
  case True
  then show ?thesis by (simp add: toDouble_def)
next
  case False
  define p where "p = max (exponentOf (rat_of_int x) - 52) (- 1074)"
  define n where "n = nat (- p)"
  have "p \<le> 0" using exponentOf_int [OF assms] by (simp add: p_def)
  then have p: "p = - int n" by (simp add: n_def)
  have pw: "(2::rat) powi p = 1 / 2 ^ n"
    by (simp add: p power_int_minus_divide)
  have "rat_of_int x / 2 powi p = of_int (x * 2 ^ n)"
    by (simp add: pw)
  then have r: "roundHalfEven (rat_of_int x / 2 powi p) = x * 2 ^ n"
    by (simp only: roundHalfEven_int)
  have v: "of_int (roundHalfEven (rat_of_int x / 2 powi p)) * 2 powi p = rat_of_int x"
    unfolding r by (simp add: pw)
  have "\<bar>rat_of_int x\<bar> < 2 ^ 53"
    using assms by (metis of_int_abs of_int_less_numeral_power_cancel_iff)
  also have "\<dots> < (2::rat) ^ 1024" by (simp add: power_strict_increasing)
  finally have small: "\<bar>rat_of_int x\<bar> < 2 powi 1024" by simp
  show ?thesis
    using False small unfolding toDouble_def Let_def p_def [symmetric] v
    by (auto simp: abs_less_iff)
qed

lemma bitLength_gt: "2 ^ k \<le> n \<Longrightarrow> k < bitLength n"
proof (induction k arbitrary: n)
  case 0
  then show ?case by (subst bitLength.simps) simp
next
  case (Suc k)
  have "(0::int) < 2 ^ Suc k" by simp
  with Suc.prems have pos: "0 < n" by linarith
  from Suc.prems have "2 ^ k \<le> n div 2" by simp
  then have "k < bitLength (n div 2)" by (rule Suc.IH)
  with pos show ?case by (subst bitLength.simps) simp
qed

lemma exponentOf_int_eq:
  assumes "2 ^ e \<le> \<bar>x\<bar>" and "\<bar>x\<bar> < 2 ^ Suc e"
  shows "exponentOf (of_int x) = int e"
proof -
  have "bitLength \<bar>x\<bar> \<le> Suc e" using assms(2) by (rule bitLength_le)
  moreover have "e < bitLength \<bar>x\<bar>" using assms(1) by (rule bitLength_gt)
  ultimately have len: "bitLength \<bar>x\<bar> = Suc e" by simp
  have "\<not> \<bar>rat_of_int x\<bar> < 2 ^ e"
    using assms(1) by (metis of_int_abs of_int_less_numeral_power_cancel_iff not_less)
  then show ?thesis
    by (simp add: exponentOf_def Let_def bitLength_1 quotient_of_abs_int len)
qed

lemma toDouble_int_round:
  assumes "2 ^ (52 + k) \<le> \<bar>x\<bar>" and "\<bar>x\<bar> < 2 ^ (53 + k)"
  shows "toDouble (of_int x) =
           (if 2 ^ 1024 \<le> rat_of_int (roundHalfEven (of_int x / 2 ^ k) * 2 ^ k) then PlusInfinity
            else if rat_of_int (roundHalfEven (of_int x / 2 ^ k) * 2 ^ k) \<le> - (2 ^ 1024)
            then MinusInfinity
            else Finite (of_int (roundHalfEven (of_int x / 2 ^ k) * 2 ^ k)))"
proof -
  have e: "exponentOf (of_int x) = int (52 + k)"
    using assms by (intro exponentOf_int_eq) simp_all
  have p: "max (exponentOf (rat_of_int x) - 52) (- 1074) = int k"
    by (simp add: e)
  have "(0::int) < 2 ^ (52 + k)" by simp
  with assms(1) have "x \<noteq> 0" by linarith
  then have nz: "rat_of_int x \<noteq> 0" by simp
  show ?thesis
    unfolding toDouble_def Let_def p using nz by simp
qed

lemma toDouble_int:
  assumes "\<bar>x\<bar> \<le> 2 ^ 53"
  shows "toDouble (of_int x) = Finite (of_int x)"
proof -
  consider "\<bar>x\<bar> < 2 ^ 53" | "x = 2 ^ 53" | "x = - (2 ^ 53)"
    using assms by linarith
  then show ?thesis
  proof cases
    case 1
    then show ?thesis by (rule toDouble_int_below)
  next
    case 2
    then show ?thesis
      using toDouble_int_round [of 1 x] by (simp add: roundHalfEven_def)
  next
    case 3
    then show ?thesis
      using toDouble_int_round [of 1 x] by (simp add: roundHalfEven_def)
  qed
qed

lemma roundHalfEven_div:
  "roundHalfEven (rat_of_int x / 2 ^ k) =
     (if 2 * (x mod 2 ^ k) < 2 ^ k then x div 2 ^ k
      else if 2 ^ k < 2 * (x mod 2 ^ k) then x div 2 ^ k + 1
      else if even (x div 2 ^ k) then x div 2 ^ k else x div 2 ^ k + 1)"
proof -
  have fl: "\<lfloor>rat_of_int x / 2 ^ k\<rfloor> = x div 2 ^ k"
    using floor_divide_of_int_eq [of x "2 ^ k", where ?'a = rat] by simp
  have "rat_of_int x = rat_of_int (x div 2 ^ k * 2 ^ k + x mod 2 ^ k)"
    by (simp only: div_mult_mod_eq)
  also have "\<dots> = rat_of_int (x div 2 ^ k) * 2 ^ k + rat_of_int (x mod 2 ^ k)"
    by (simp only: of_int_add of_int_mult of_int_power of_int_numeral)
  finally have "rat_of_int x / 2 ^ k =
                  (rat_of_int (x div 2 ^ k) * 2 ^ k + rat_of_int (x mod 2 ^ k)) / 2 ^ k"
    by (rule arg_cong [where f = "\<lambda>y. y / 2 ^ k"])
  also have "\<dots> = rat_of_int (x div 2 ^ k) + rat_of_int (x mod 2 ^ k) / 2 ^ k"
    by (simp add: add_divide_distrib)
  finally have fr: "rat_of_int x / 2 ^ k - rat_of_int (x div 2 ^ k) = rat_of_int (x mod 2 ^ k) / 2 ^ k"
    by simp
  have lt: "rat_of_int (x mod 2 ^ k) / 2 ^ k < 1 / 2 \<longleftrightarrow> 2 * (x mod 2 ^ k) < 2 ^ k"
  proof -
    have "rat_of_int (x mod 2 ^ k) / 2 ^ k < 1 / 2 \<longleftrightarrow> rat_of_int (2 * (x mod 2 ^ k)) < rat_of_int (2 ^ k)"
      by (simp add: field_simps)
    then show ?thesis by (simp only: of_int_less_iff)
  qed
  have gt: "1 / 2 < rat_of_int (x mod 2 ^ k) / 2 ^ k \<longleftrightarrow> 2 ^ k < 2 * (x mod 2 ^ k)"
  proof -
    have "1 / 2 < rat_of_int (x mod 2 ^ k) / 2 ^ k \<longleftrightarrow> rat_of_int (2 ^ k) < rat_of_int (2 * (x mod 2 ^ k))"
      by (simp add: field_simps)
    then show ?thesis by (simp only: of_int_less_iff)
  qed
  show ?thesis
    unfolding roundHalfEven_def fl fr lt gt by simp
qed

lemma toDouble_int_eval:
  assumes "2 ^ (52 + k) \<le> \<bar>x\<bar>" and "\<bar>x\<bar> < 2 ^ (53 + k)"
    and "m = (if 2 * (x mod 2 ^ k) < 2 ^ k then x div 2 ^ k
              else if 2 ^ k < 2 * (x mod 2 ^ k) then x div 2 ^ k + 1
              else if even (x div 2 ^ k) then x div 2 ^ k else x div 2 ^ k + 1)"
  shows "toDouble (of_int x) =
           (if 2 ^ 1024 \<le> m * 2 ^ k then PlusInfinity
            else if m * 2 ^ k \<le> - (2 ^ 1024) then MinusInfinity
            else Finite (of_int (m * 2 ^ k)))"
proof -
  have m: "roundHalfEven (of_int x / 2 ^ k) = m"
    unfolding assms(3) by (rule roundHalfEven_div)
  have a: "(2 ^ 1024 \<le> rat_of_int (m * 2 ^ k)) = (2 ^ 1024 \<le> m * 2 ^ k)"
    by (metis of_int_numeral of_int_power of_int_le_iff)
  have b: "(rat_of_int (m * 2 ^ k) \<le> - (2 ^ 1024)) = (m * 2 ^ k \<le> - (2 ^ 1024))"
    by (metis of_int_numeral of_int_power of_int_le_iff of_int_minus)
  show ?thesis
    unfolding toDouble_int_round [OF assms(1,2)] m a b ..
qed

lemma toDouble_small:
  "toDouble 0 = Finite 0"
  "toDouble 1 = Finite 1"
  "numeral k \<le> (2::int) ^ 53 \<Longrightarrow> toDouble (numeral k) = Finite (numeral k)"
  "numeral k \<le> (2::int) ^ 53 \<Longrightarrow> toDouble (- numeral k) = Finite (- numeral k)"
  using toDouble_int [of 0] toDouble_int [of 1] toDouble_int [of "numeral k"]
    toDouble_int [of "- numeral k"]
  by simp_all

lemma mathRound_int: "mathRound (Finite (of_int k)) = Finite (of_int k)"
proof -
  have "\<lfloor>rat_of_int k + 1 / 2\<rfloor> = k"
    by (rule floor_unique) simp_all
  then show ?thesis by (simp only: mathRound.simps(1))
qed

lemma mathRound_numeral: "mathRound (Finite (numeral k)) = Finite (numeral k)"
  using mathRound_int [of "numeral k"] by simp

lemma amountNumber_0: "amountNumber 0 = Finite 0"
  by (simp add: amountNumber_def toDouble_def)

lemma amountNumber_exact: "\<bar>a\<bar> \<le> 2 ^ 53 \<Longrightarrow> amountNumber a = Finite (of_int a)"
  by (simp add: amountNumber_def toDouble_int)

lemma numAdd_exact:
  "\<bar>a + b\<bar> \<le> 2 ^ 53 \<Longrightarrow> numAdd (Finite (of_int a)) (Finite (of_int b)) = Finite (of_int (a + b))"
  using toDouble_int [of "a + b"] by simp

lemma sum_list_abs_nonneg: "0 \<le> sum_list (map abs (xs :: int list))"
  by (induction xs) simp_all

text \<open>Adding amounts one after the other is exact while the absolute values stay within
  \<open>2 ^ 53\<close>.\<close>

lemma foldl_numAdd_exact:
  "\<bar>s\<bar> + sum_list (map abs xs) \<le> 2 ^ 53 \<Longrightarrow>
   foldl (\<lambda>sum x. numAdd sum (amountNumber x)) (Finite (of_int s)) xs
     = Finite (of_int (s + sum_list xs))"
proof (induction xs arbitrary: s)
  case Nil
  then show ?case by simp
next
  case (Cons x xs)
  have nn: "0 \<le> sum_list (map abs xs)" by (rule sum_list_abs_nonneg)
  from Cons.prems nn have x: "\<bar>x\<bar> \<le> 2 ^ 53" and sx: "\<bar>s + x\<bar> \<le> 2 ^ 53"
    and rest: "\<bar>s + x\<bar> + sum_list (map abs xs) \<le> 2 ^ 53"
    by simp_all
  have "numAdd (Finite (of_int s)) (amountNumber x) = Finite (of_int (s + x))"
    by (simp only: amountNumber_exact [OF x] numAdd_exact [OF sx])
  then show ?case
    using Cons.IH [OF rest] by (simp add: add.assoc)
qed

text \<open>Four roundings of integers beyond \<open>2 ^ 53\<close>: \<open>2 ^ 53 + 1\<close>, \<open>2 ^ 60\<close>, \<open>2 ^ 60 + 50\<close> and
  \<open>100 * 2 ^ 60\<close>.\<close>

lemma toDouble_examples:
  "toDouble 9007199254740993 = Finite 9007199254740992"
  "toDouble 1152921504606846976 = Finite 1152921504606846976"
  "toDouble 1152921504606847026 = Finite 1152921504606846976"
  "toDouble 115292150460684697600 = Finite 115292150460684697600"
  using toDouble_int_eval [of 1 9007199254740993] toDouble_int_eval [of 8 1152921504606846976]
    toDouble_int_eval [of 8 1152921504606847026] toDouble_int_eval [of 14 115292150460684697600]
  by simp_all

text \<open>The balance that \<^verbatim>\<open>getBalance\<close> returns is the integer balance while one hundred
  times the absolute values of the held amounts stays within \<open>2 ^ 53\<close>.\<close>

lemma foldl_balance_exact:
  "\<bar>s\<bar> + sum_list (map abs (map amount (filter (\<lambda>utxo. address utxo = addr) (map snd es)))) \<le> 2 ^ 53 \<Longrightarrow>
   foldl (\<lambda>bal e. if address (snd e) = addr then numAdd bal (amountNumber (amount (snd e))) else bal)
         (Finite (of_int s)) es
     = Finite (of_int (s + sum_list (map amount (filter (\<lambda>utxo. address utxo = addr) (map snd es)))))"
proof (induction es arbitrary: s)
  case Nil
  then show ?case by simp
next
  case (Cons e es)
  let ?held = "map amount (filter (\<lambda>utxo. address utxo = addr) (map snd es))"
  have nn: "0 \<le> sum_list (map abs ?held)" by (rule sum_list_abs_nonneg)
  show ?case
  proof (cases "address (snd e) = addr")
    case True
    with Cons.prems nn have x: "\<bar>amount (snd e)\<bar> \<le> 2 ^ 53"
      and sx: "\<bar>s + amount (snd e)\<bar> \<le> 2 ^ 53"
      and rest: "\<bar>s + amount (snd e)\<bar> + sum_list (map abs ?held) \<le> 2 ^ 53"
      by simp_all
    have "numAdd (Finite (of_int s)) (amountNumber (amount (snd e)))
            = Finite (of_int (s + amount (snd e)))"
      by (simp only: amountNumber_exact [OF x] numAdd_exact [OF sx])
    then show ?thesis
      using True Cons.IH [OF rest] by (simp add: add.assoc)
  next
    case False
    with Cons.prems have "\<bar>s\<bar> + sum_list (map abs ?held) \<le> 2 ^ 53" by simp
    from Cons.IH [OF this] False show ?thesis by simp
  qed
qed

lemma sum_list_abs_bound: "\<bar>sum_list (xs :: int list)\<bar> \<le> sum_list (map abs xs)"
  by (induction xs) simp_all

lemma getBalance_exact:
  assumes "sum_list (map abs (heldAmounts bc addr)) * 100 \<le> 2 ^ 53"
  shows "getBalance bc addr = Finite (of_int (exactBalance bc addr))"
proof -
  let ?b = "exactBalance bc addr"
  have nn: "0 \<le> sum_list (map abs (heldAmounts bc addr))" by (rule sum_list_abs_nonneg)
  have le: "\<bar>?b\<bar> \<le> sum_list (map abs (heldAmounts bc addr))"
    unfolding exactBalance_def by (rule sum_list_abs_bound)
  from assms nn le have b: "\<bar>?b\<bar> \<le> 2 ^ 53" and b100: "\<bar>?b * 100\<bar> \<le> 2 ^ 53"
    and held: "\<bar>0\<bar> + sum_list (map abs (heldAmounts bc addr)) \<le> 2 ^ 53"
    by (simp_all add: abs_mult)
  have sum: "foldl (\<lambda>bal e. if address (snd e) = addr
                             then numAdd bal (amountNumber (amount (snd e))) else bal)
               (Finite 0) (utxoSet bc) = Finite (of_int ?b)"
    using foldl_balance_exact [of 0 addr "utxoSet bc"] held
    by (simp add: heldAmounts_def exactBalance_def)
  have times: "numTimes (Finite (of_int ?b)) 100 = Finite (of_int (?b * 100))"
    using toDouble_int [OF b100] by simp
  have round: "mathRound (Finite (of_int (?b * 100))) = Finite (of_int (?b * 100))"
    by (rule mathRound_int)
  have over: "numOver (Finite (of_int (?b * 100))) 100 = Finite (of_int ?b)"
    using toDouble_int [OF b] by simp
  show ?thesis
    unfolding getBalance_def Let_def sum times round over ..
qed

section \<open>Properties of the hash and of the Merkle tree\<close>

lemma length_toHex8: "length (toHex8 v) = 8"
  by (simp add: toHex8_def)

lemma length_sha256: "length (sha256 message) = 64"
  by (simp add: sha256_def Let_def length_toHex8 split: prod.splits)

lemma sha256_not_empty: "sha256 message \<noteq> []"
  using length_sha256 [of message] by auto

lemma length_pairUp: "length (pairUp level) = (length level + 1) div 2"
  by (induction level rule: pairUp.induct) simp_all

lemma pairUp_not_empty: "[] \<notin> set (pairUp level)"
  by (induction level rule: pairUp.induct) (simp_all add: sha256_not_empty [symmetric])

lemma levelSteps_past: "idx < i \<Longrightarrow> levelSteps i idx level = []"
  by (induction i idx level rule: levelSteps.induct) auto

text \<open>
  Walking one level: hashing the leaf at \<open>idx\<close> with the recorded step gives the node above
  it, provided no hash of the level is the empty string.
\<close>

lemma levelSteps_verify:
  "even i \<Longrightarrow> i \<le> idx \<Longrightarrow> idx - i < length level \<Longrightarrow> [] \<notin> set level \<Longrightarrow>
   foldl verifyStep (level ! (idx - i)) (levelSteps i idx level) = pairUp level ! ((idx - i) div 2)"
proof (induction i idx level rule: levelSteps.induct)
  case (1 i idx)
  then show ?case by simp
next
  case (2 i idx left)
  then have "idx = i" by simp
  with 2 show ?case by (simp add: verifyStep_def)
next
  case (3 i idx left r rest)
  consider "idx = i" | "idx = Suc i" | "i + 2 \<le> idx" using 3(3) by linarith
  then show ?case
  proof cases
    case 1
    with 3 show ?thesis by (simp add: verifyStep_def levelSteps_past)
  next
    case 2
    with 3 have "odd idx" by simp
    with 2 3 show ?thesis
      by (auto simp: verifyStep_def levelSteps_past odd_iff_mod_2_eq_one)
  next
    case far: 3
    have "idx mod 2 < 2" by simp
    with far have ne: "i \<noteq> idx - idx mod 2" by linarith
    define k where "k = idx - (i + 2)"
    have k: "idx - i = Suc (Suc k)" "idx - (i + 2) = k"
      using far by (simp_all add: k_def)
    have "foldl verifyStep (rest ! k) (levelSteps (i + 2) idx rest) = pairUp rest ! (k div 2)"
      using "3.IH" "3.prems" far k by simp
    with ne k show ?thesis by simp
  qed
qed

lemma proofLoop_verify:
  "idx < length level \<Longrightarrow> [] \<notin> set level \<Longrightarrow>
   foldl verifyStep (level ! idx) (proofLoop level idx) = hd (rootLoop level)"
proof (induction level idx rule: proofLoop.induct)
  case (1 level idx)
  show ?case
  proof (cases "length level > 1")
    case True
    have step: "foldl verifyStep (level ! idx) (levelSteps 0 idx level) = pairUp level ! (idx div 2)"
      using levelSteps_verify [of 0 idx level] 1(2,3) by simp
    have "idx div 2 < length (pairUp level)"
      using 1(2) by (simp add: length_pairUp)
    then have "foldl verifyStep (pairUp level ! (idx div 2)) (proofLoop (pairUp level) (idx div 2))
               = hd (rootLoop (pairUp level))"
      using "1.IH" True pairUp_not_empty by simp
    with True step show ?thesis
      by (subst proofLoop.simps, subst rootLoop.simps) simp
  next
    case False
    with 1(2) have "idx = 0" by simp
    with False 1(2) show ?thesis
      by (subst proofLoop.simps, subst rootLoop.simps) (simp add: hd_conv_nth)
  qed
qed

text \<open>
  Claim C2 (Merkle proof round trip). For every non-empty list of leaf hashes and every index
  \<open>i\<close> within the list, \<open>verifyProof (leaves ! i) (getProof leaves i) (computeRoot leaves)\<close>
  holds. A hash is a digest, 64 hex characters; the proof uses only that no leaf is the
  empty string.
\<close>

theorem merkle_proof_roundtrip:
  assumes "leaves \<noteq> []" and "i < length leaves" and "[] \<notin> set leaves"
  shows "verifyProof (leaves ! i) (getProof leaves i) (computeRoot leaves)"
proof (cases "length leaves \<le> 1")
  case True
  with assms have "i = 0" "length leaves = 1" by (auto simp: Suc_le_eq less_Suc_eq_0_disj)
  then show ?thesis
    using assms(1)
    by (simp add: verifyProof_def getProof_def computeRoot_def rootLoop.simps hd_conv_nth)
next
  case False
  then show ?thesis
    using proofLoop_verify [OF assms(2,3)] assms(1)
    by (simp add: verifyProof_def getProof_def computeRoot_def)
qed

theorem merkle_proof_roundtrip_witness:
  "[''a'', ''b'', ''c''] \<noteq> [] \<and> 2 < length [''a'', ''b'', ''c''] \<and>
   [] \<notin> set [''a'', ''b'', ''c''] \<and>
   verifyProof ([''a'', ''b'', ''c''] ! 2) (getProof [''a'', ''b'', ''c''] 2)
               (computeRoot [''a'', ''b'', ''c''])"
  using merkle_proof_roundtrip [of "[''a'', ''b'', ''c'']" 2] by simp

section \<open>Computing a digest\<close>

text \<open>
  The operations of the hash on cells, as rewrite rules; with them the simplifier computes
  the digest of a concrete message.
\<close>

lemma cell_numeral: "(numeral k :: 32 word) = cell (numeral k)" by (simp add: cell_def)
lemma cell_zero: "(0 :: 32 word) = cell 0" by (simp add: cell_def)
lemma cell_one: "(1 :: 32 word) = cell 1" by (simp add: cell_def)

lemma cell_mod: "cell (a mod 4294967296) = cell a"
  unfolding cell_def by (simp add: word_of_nat_eq_iff take_bit_eq_mod)

lemma cell_add: "cell a + cell b = cell ((a + b) mod 4294967296)"
  unfolding cell_mod by (simp add: cell_def)

lemma cell_xor: "cell a XOR cell b = cell (a XOR b)" by (simp add: cell_def of_nat_xor_eq)
lemma cell_and: "cell a AND cell b = cell (a AND b)" by (simp add: cell_def of_nat_and_eq)
lemma cell_or: "cell a OR cell b = cell (a OR b)" by (simp add: cell_def of_nat_or_eq)

lemma cell_push: "push_bit n (cell a) = cell ((a * 2 ^ n) mod 4294967296)"
  unfolding cell_mod by (simp add: cell_def push_bit_eq_mult)

lemma unat_cell: "unat (cell a) = a mod 4294967296"
  by (simp add: cell_def unat_of_nat)

lemma cell_drop: "a < 4294967296 \<Longrightarrow> drop_bit n (cell a) = cell (a div 2 ^ n)"
proof -
  assume a: "a < 4294967296"
  have "a div 2 ^ n \<le> a" by (rule div_le_dividend)
  with a have small: "a div 2 ^ n < 4294967296" by linarith
  have "unat (drop_bit n (cell a)) = drop_bit n (unat (cell a))" by (simp only: unat_drop_bit_eq)
  also have "\<dots> = a div 2 ^ n" using a by (simp add: unat_cell drop_bit_eq_div)
  also have "\<dots> = unat (cell (a div 2 ^ n))" using small by (simp add: unat_cell)
  finally show ?thesis by (simp only: word_unat_eq_iff)
qed

lemma cell_not: "NOT (cell a) = cell (4294967295 - a mod 4294967296)"
proof -
  have le: "a mod 4294967296 \<le> 4294967295" by simp
  have "cell (4294967295 - a mod 4294967296) = word_of_nat 4294967295 - word_of_nat (a mod 4294967296)"
    unfolding cell_def using le by (simp only: of_nat_diff)
  also have "\<dots> = - 1 - cell a"
    using cell_mod [of a] by (simp add: cell_def)
  also have "\<dots> = NOT (cell a)"
    by (simp add: not_eq_complement)
  finally show ?thesis by simp
qed

lemma rot_cell: "a < 4294967296 \<Longrightarrow>
  rot (cell a) n = cell ((a div 2 ^ n) OR ((a * 2 ^ (32 - n)) mod 4294967296))"
  by (simp add: rot_def cell_drop cell_push cell_or)

lemma getUint32_cell:
  "getUint32 bs k =
     cell (push_bit 24 (unat (bs ! k)) OR push_bit 16 (unat (bs ! (k + 1))) OR
        push_bit 8 (unat (bs ! (k + 2))) OR unat (bs ! (k + 3)))"
  by (simp add: getUint32_def cell_def of_nat_or_eq of_nat_push_bit)

lemma unat_drop_cell: "a < 4294967296 \<Longrightarrow> unat (drop_bit n (cell a)) = a div 2 ^ n"
proof -
  assume a: "a < 4294967296"
  have "a div 2 ^ n \<le> a" by (rule div_le_dividend)
  with a have small: "a div 2 ^ n < 4294967296" by linarith
  have "unat (drop_bit n (cell a)) = unat (cell (a div 2 ^ n))" by (simp only: cell_drop [OF a])
  with small show ?thesis by (simp add: unat_cell)
qed

lemma toHex8_cell:
  "a < 4294967296 \<Longrightarrow> toHex8 (cell a) = map (\<lambda>k. hexDigit (a div 2 ^ (4 * k))) [7, 6, 5, 4, 3, 2, 1, 0]"
  unfolding toHex8_def by (simp only: unat_drop_cell)

lemma unat_ucast_cell: "unat (ucast (cell a) :: 8 word) = a mod 256"
  by (simp add: cell_def unat_of_nat unsigned_of_nat take_bit_eq_mod unsigned_ucast_eq mod_mod_cancel)


lemma upt_16: "[0..<16] = [0, 1, 2, 3, 4, 5, 6, 7, 8, 9, 10, 11, 12, 13, 14, 15]"
  by code_simp

lemma upt_64: "[0..<64] = [0..<16] @ map (\<lambda>i. i + 16) [0..<16] @ map (\<lambda>i. i + 32) [0..<16] @ map (\<lambda>i. i + 48) [0..<16]"
  by code_simp

lemma expandSchedule_numeral:
  "expandSchedule (numeral k) w =
     expandSchedule (pred_numeral k)
       (w @ [w ! (length w - 16) +
             (rot (w ! (length w - 15)) 7 XOR rot (w ! (length w - 15)) 18 XOR
              drop_bit 3 (w ! (length w - 15))) +
             w ! (length w - 7) +
             (rot (w ! (length w - 2)) 17 XOR rot (w ! (length w - 2)) 19 XOR
              drop_bit 10 (w ! (length w - 2)))])"
  by (simp add: numeral_eq_Suc Let_def)

lemma shaRound_cell:
  "shaRound w (a, b, c, d, e, f, g, h) i =
     ((h + (rot e 6 XOR rot e 11 XOR rot e 25) + ((e AND f) XOR (NOT e AND g)) +
         SHA256_K ! i + w ! i) +
      ((rot a 2 XOR rot a 13 XOR rot a 22) + ((a AND b) XOR (a AND c) XOR (b AND c))),
      a, b, c,
      d + (h + (rot e 6 XOR rot e 11 XOR rot e 25) + ((e AND f) XOR (NOT e AND g)) +
         SHA256_K ! i + w ! i),
      e, f, g)"
  by (simp add: shaRound_def Let_def)

lemma replicate_numeral: "replicate (numeral k) x = x # replicate (pred_numeral k) x"
  by (simp add: numeral_eq_Suc)

lemma shaBlock_cell:
  "shaBlock padded (h0, h1, h2, h3, h4, h5, h6, h7) off =
     (case foldl (shaRound (expandSchedule 48 (map (\<lambda>i. getUint32 padded (off + i * 4)) [0..<16])))
             (h0, h1, h2, h3, h4, h5, h6, h7) [0..<64] of
        (a, b, c, d, e, f, g, h) \<Rightarrow>
           (h0 + a, h1 + b, h2 + c, h3 + d, h4 + e, h5 + f, h6 + g, h7 + h))"
  by (simp add: shaBlock_def Let_def)

lemmas sha_eval = sha256_def padMessage_def encode_def setUint32_def shaBlock_cell shaRound_cell
      SHA256_K_def getUint32_cell rot_cell cell_numeral cell_zero cell_one cell_add cell_xor cell_and cell_not toHex8_cell
      hexDigit_def Let_def unat_ucast_cell cell_drop upt_16 upt_64 expandSchedule_numeral replicate_numeral


section \<open>Proof of work\<close>

lemma getHeaderString_blockHash [simp]: "getHeaderString (b\<lparr>blockHash := h\<rparr>) = getHeaderString b"
  by (simp add: getHeaderString_def)

lemma getHeaderString_miningTime [simp]: "getHeaderString (b\<lparr>miningTime := e\<rparr>) = getHeaderString b"
  by (simp add: getHeaderString_def)

lemma getHeaderString_transactions [simp]:
  "getHeaderString (b\<lparr>transactions := txs\<rparr>) = getHeaderString b"
  by (simp add: getHeaderString_def)

lemma incrementNonce_below: "n < 2 ^ 53 \<Longrightarrow> incrementNonce n = Suc n"
  by (simp add: incrementNonce_def)

lemma startsWith_empty [simp]: "startsWith s (repeat t 0)"
  by (simp add: startsWith_def repeat_def)

text \<open>
  The search reaches the first qualifying nonce above the starting one: induction on the
  distance to a qualifying nonce \<open>n\<close>.
\<close>

lemma mineLoop_finds:
  assumes "nonce b < n" and "n \<le> 2 ^ 53"
    and "startsWith (sha256 (getHeaderString (b\<lparr>nonce := n\<rparr>))) (repeat ''0'' (difficulty b))"
  shows "\<exists>m. nonce b < m \<and> m \<le> n \<and>
           mineLoop b a =
             Some (b\<lparr>nonce := m, blockHash := sha256 (getHeaderString (b\<lparr>nonce := m\<rparr>))\<rparr>,
                   a + (m - nonce b)) \<and>
           startsWith (sha256 (getHeaderString (b\<lparr>nonce := m\<rparr>))) (repeat ''0'' (difficulty b))"
  using assms
proof (induction k \<equiv> "n - nonce b" arbitrary: b a)
  case 0
  then show ?case by simp
next
  case (Suc k)
  let ?m = "Suc (nonce b)"
  let ?h = "sha256 (getHeaderString (b\<lparr>nonce := ?m\<rparr>))"
  let ?b' = "b\<lparr>nonce := ?m, blockHash := ?h\<rparr>"
  have inc: "incrementNonce (nonce b) = ?m"
    using Suc.prems by (simp add: incrementNonce_below)
  show ?case
  proof (cases "startsWith ?h (repeat ''0'' (difficulty b))")
    case True
    then have "mineLoop b a = Some (?b', a + 1)"
      by (subst mineLoop.simps) (simp add: inc)
    with True Suc.prems show ?thesis
      by (intro exI [of _ ?m]) simp
  next
    case False
    then have unfold: "mineLoop b a = mineLoop ?b' (a + 1)"
      by (subst mineLoop.simps) (simp add: inc)
    from False Suc.prems have "?m \<noteq> n" by auto
    with Suc.prems have lt: "nonce ?b' < n" by simp
    have k: "k = n - nonce ?b'" using Suc.hyps(2) by simp
    have q: "startsWith (sha256 (getHeaderString (?b'\<lparr>nonce := n\<rparr>))) (repeat ''0'' (difficulty ?b'))"
      using Suc.prems(3) by (simp add: getHeaderString_def)
    from Suc.hyps(1) [OF k lt Suc.prems(2) q, of "a + 1"]
    obtain m where m: "nonce ?b' < m" "m \<le> n"
      "mineLoop ?b' (a + 1) =
         Some (?b'\<lparr>nonce := m, blockHash := sha256 (getHeaderString (?b'\<lparr>nonce := m\<rparr>))\<rparr>,
               a + 1 + (m - nonce ?b'))"
      "startsWith (sha256 (getHeaderString (?b'\<lparr>nonce := m\<rparr>))) (repeat ''0'' (difficulty ?b'))"
      by blast
    have hdr: "getHeaderString (?b'\<lparr>nonce := m\<rparr>) = getHeaderString (b\<lparr>nonce := m\<rparr>)"
      by (simp add: getHeaderString_def)
    show ?thesis
      using m unfold hdr by (intro exI [of _ m]) simp
  qed
qed

lemma mine_finds:
  assumes "nonce b < n" and "n \<le> 2 ^ 53"
    and "startsWith (sha256 (getHeaderString (b\<lparr>nonce := n\<rparr>))) (repeat ''0'' (difficulty b))"
  shows "\<exists>m. nonce b < m \<and> m \<le> n \<and>
           mine b e =
             Some (b\<lparr>nonce := m, blockHash := sha256 (getHeaderString (b\<lparr>nonce := m\<rparr>)),
                     miningTime := e\<rparr>, m - nonce b) \<and>
           startsWith (sha256 (getHeaderString (b\<lparr>nonce := m\<rparr>))) (repeat ''0'' (difficulty b))"
  using mineLoop_finds [OF assms, of 0] by (auto simp: mine_def)

lemma mine_difficulty_0:
  assumes "difficulty b = 0" and "nonce b < 2 ^ 53"
  shows "mine b e = Some (b\<lparr>nonce := Suc (nonce b),
                            blockHash := sha256 (getHeaderString (b\<lparr>nonce := Suc (nonce b)\<rparr>)),
                            miningTime := e\<rparr>, 1)"
proof -
  have "mineLoop b 0 = Some (b\<lparr>nonce := Suc (nonce b),
                            blockHash := sha256 (getHeaderString (b\<lparr>nonce := Suc (nonce b)\<rparr>))\<rparr>, 1)"
    using assms by (subst mineLoop.simps) (simp add: incrementNonce_below)
  then show ?thesis by (simp add: mine_def)
qed

section \<open>Transactions, the UTXO set and the concrete runs\<close>

lemma newTransaction_fields [simp]:
  "inputs (newTransaction ins outs cb now) = ins"
  "outputs (newTransaction ins outs cb now) = outs"
  "signatures (newTransaction ins outs cb now) = []"
  "isCoinbase (newTransaction ins outs cb now) = cb"
  "timestamp (newTransaction ins outs cb now) = now"
  by (simp_all add: newTransaction_def Let_def)

lemma hash_newTransaction:
  "hash (newTransaction ins outs cb now) =
     computeHash \<lparr>inputs = ins, outputs = outs, signatures = [], isCoinbase = cb,
                  timestamp = now, hash = []\<rparr>"
  by (simp add: newTransaction_def Let_def)

lemma sign_fields [simp]:
  "inputs (sign tx k) = inputs tx"
  "outputs (sign tx k) = outputs tx"
  "isCoinbase (sign tx k) = isCoinbase tx"
  "hash (sign tx k) = hash tx"
  "signatures (sign tx k) = signatures tx @ replicate (length (inputs tx)) (signData (hash tx) k)"
  by (simp_all add: sign_def)

lemma createCoinbase_fields [simp]:
  "isCoinbase (createCoinbase a r h t)"
  "outputs (createCoinbase a r h t) = [\<lparr>address = a, amount = r\<rparr>]"
  "inputs (createCoinbase a r h t) = [\<lparr>txHash = repeat ''0'' 64, outputIndex = h\<rparr>]"
  by (simp_all add: createCoinbase_def)

lemma length_computeHash: "length (computeHash tx) = 64"
  by (simp add: computeHash_def length_sha256)

lemma length_hash_createCoinbase: "length (hash (createCoinbase a r h t)) = 64"
  by (simp add: createCoinbase_def hash_newTransaction length_computeHash)

lemma hash_createCoinbase_neq:
  "length s \<noteq> 64 \<Longrightarrow> hash (createCoinbase a r h t) \<noteq> s"
  "length s \<noteq> 64 \<Longrightarrow> s \<noteq> hash (createCoinbase a r h t)"
  using length_hash_createCoinbase [of a r h t] by auto

lemma utxoKey_same_index: "utxoKey h i = utxoKey h' i \<longleftrightarrow> h = h'"
  by (simp add: utxoKey_def)

lemma computeRoot_single [simp]: "computeRoot [h] = h"
  by (simp add: computeRoot_def rootLoop.simps)

lemma mapSet_fresh: "mapGet m k = None \<Longrightarrow> mapSet m k v = m @ [(k, v)]"
  by (induction m) (auto simp: mapGet_def split: if_splits)

lemma processTx_coinbase:
  "isCoinbase tx \<Longrightarrow> outputs tx = [out] \<Longrightarrow>
   processTx utxos tx = mapSet utxos (utxoKey (hash tx) 0) \<lparr>address = address out, amount = amount out\<rparr>"
  by (simp add: processTx_def)

text \<open>Rebuilding a received transaction or block gives the received fields back.\<close>

lemma rebuildTx_same: "rebuildTx now txd = txd"
  by (cases txd) (simp add: rebuildTx_def newTransaction_def Let_def)

lemma map_rebuildTx_same: "map (rebuildTx now) txs = txs"
  by (induction txs) (simp_all add: rebuildTx_same)

lemma rebuildBlock_same: "rebuildBlock now blockData = blockData"
  by (cases blockData) (simp add: rebuildBlock_def newBlock_def map_rebuildTx_same)

lemma rebuildChainFromData_eq:
  "rebuildChainFromData now bc chainData =
     bc\<lparr>chain := chain bc @ chainData,
        utxoSet := foldl processBlockUTXOs (utxoSet bc) chainData\<rparr>"
  unfolding rebuildChainFromData_def
  by (induction chainData arbitrary: bc) (simp_all add: rebuildBlock_same)

text \<open>The initialized chain of the small network.\<close>

lemma initialize_genesisState:
  "initialize (newBlockchain 0) (walletAddress aliceWallet) 1 2 3 = Some (genesisState, genesisBlock)"
  and genesisState_eq:
  "genesisState =
     \<lparr>chain = [genesisBlock],
      utxoSet = [(utxoKey (hash genesisCoinbase) 0,
                  \<lparr>address = walletAddress aliceWallet, amount = 5000\<rparr>)],
      mempool = [], chainDifficulty = 0,
      stats = \<lparr>totalBlocks = 1, totalHashes = 1, totalTime = 3\<rparr>\<rparr>"
proof -
  have i: "initialize (newBlockchain 0) (walletAddress aliceWallet) 1 2 3 =
        Some (\<lparr>chain = [genesisBlock],
      utxoSet = [(utxoKey (hash genesisCoinbase) 0,
                  \<lparr>address = walletAddress aliceWallet, amount = 5000\<rparr>)],
      mempool = [], chainDifficulty = 0,
      stats = \<lparr>totalBlocks = 1, totalHashes = 1, totalTime = 3\<rparr>\<rparr>, genesisBlock)"
    by (simp add: initialize_def newBlockchain_def Let_def genesisCoinbase_def
        addStats_def genesisBlock_def mine_difficulty_0 newBlock_def processBlockUTXOs_def
        MINING_REWARD_def
        processTx_coinbase [of _ "\<lparr>address = walletAddress aliceWallet, amount = 5000\<rparr>"])
  then show "genesisState =
     \<lparr>chain = [genesisBlock],
      utxoSet = [(utxoKey (hash genesisCoinbase) 0,
                  \<lparr>address = walletAddress aliceWallet, amount = 5000\<rparr>)],
      mempool = [], chainDifficulty = 0,
      stats = \<lparr>totalBlocks = 1, totalHashes = 1, totalTime = 3\<rparr>\<rparr>"
    by (simp add: genesisState_def)
  with i show "initialize (newBlockchain 0) (walletAddress aliceWallet) 1 2 3 = Some (genesisState, genesisBlock)"
    by simp
qed

lemma genesisState_fields:
  "chain genesisState = [genesisBlock]"
  "utxoSet genesisState =
     [(utxoKey (hash genesisCoinbase) 0, \<lparr>address = walletAddress aliceWallet, amount = 5000\<rparr>)]"
  "mempool genesisState = []"
  "chainDifficulty genesisState = 0"
  by (simp_all add: genesisState_eq)

lemma verify_payBob: "verify demoRegistry payBob (utxoSet genesisState)"
  by (simp add: genesisState_eq verify_def payBob_def mapGet_def demoRegistry_def aliceWallet_def
      verifySignature_def nthOpt_def signData_def amountNumber_exact toDouble_small)

lemma verify_payCarol: "verify demoRegistry payCarol (utxoSet genesisState)"
  by (simp add: genesisState_eq verify_def payCarol_def mapGet_def demoRegistry_def aliceWallet_def
      verifySignature_def nthOpt_def signData_def amountNumber_exact toDouble_small)

lemma not_verify_unknownSpend: "\<not> verify demoRegistry unknownSpend (utxoSet genesisState)"
  by (simp add: verify_def unknownSpend_def genesisState_fields mapGet_def utxoKey_same_index
      genesisCoinbase_def hash_createCoinbase_neq)

lemma admit_payBob:
  "addToMempool demoRegistry genesisState payBob = (Inr True, genesisState\<lparr>mempool := [payBob]\<rparr>)"
  using verify_payBob by (simp add: addToMempool_def genesisState_fields)

lemma admit_payCarol:
  "addToMempool demoRegistry (genesisState\<lparr>mempool := [payBob]\<rparr>) payCarol =
     (Inr True, genesisState\<lparr>mempool := [payBob, payCarol]\<rparr>)"
  using verify_payCarol by (simp add: addToMempool_def)

lemma bothPending_eq: "bothPending = genesisState\<lparr>mempool := [payBob, payCarol]\<rparr>"
  by (simp add: bothPending_def admit_payBob admit_payCarol)

lemma minedChain_eq: "minedChain = [genesisBlock, minedBlock]"
  by (simp add: minedChain_def mineBlock_def Let_def genesisState_fields mine_difficulty_0
      newBlock_def minedBlock_def)

lemma validateChain_minedChain: "validateChain minedChain = Valid"
  by (simp add: minedChain_eq validateChain_def minedBlock_def newBlock_def getHeaderString_def)

lemma loadedGenesis_eq:
  "loadedGenesis =
     \<lparr>chain = [storedGenesis],
      utxoSet = [(utxoKey ''stored-genesis-coinbase'' 0, \<lparr>address = ''founder'', amount = 5000\<rparr>)],
      mempool = [], chainDifficulty = 0,
      stats = \<lparr>totalBlocks = 0, totalHashes = 0, totalTime = 0\<rparr>\<rparr>"
  by (simp add: loadedGenesis_def rebuildChainFromData_eq newBlockchain_def processBlockUTXOs_def
      storedGenesis_def processTx_def)

lemma richGenesis_eq:
  "richGenesis =
     \<lparr>chain = [richStored],
      utxoSet = [(utxoKey ''stored-genesis-coinbase'' 0,
                  \<lparr>address = ''miner'', amount = 1152921504606846976\<rparr>)],
      mempool = [], chainDifficulty = 0,
      stats = \<lparr>totalBlocks = 0, totalHashes = 0, totalTime = 0\<rparr>\<rparr>"
  by (simp add: richGenesis_def rebuildChainFromData_eq newBlockchain_def processBlockUTXOs_def
      richStored_def processTx_def)

lemma collidingGenesis_eq:
  "collidingGenesis =
     \<lparr>chain = [collidingStored],
      utxoSet = [(utxoKey (hash (createCoinbase ''miner'' MINING_REWARD 1 20)) 0,
                  \<lparr>address = ''founder'', amount = 5000\<rparr>)],
      mempool = [], chainDifficulty = 0,
      stats = \<lparr>totalBlocks = 0, totalHashes = 0, totalTime = 0\<rparr>\<rparr>"
  by (simp add: collidingGenesis_def rebuildChainFromData_eq newBlockchain_def
      processBlockUTXOs_def collidingStored_def processTx_def)

section \<open>The claims\<close>

subsection \<open>C1: double spends\<close>

text \<open>
  Claim C1 says that in every state reachable from an initialized chain by \<^verbatim>\<open>addToMempool\<close>
  and \<^verbatim>\<open>mineBlock\<close> no two confirmed non-coinbase transactions consume the same UTXO key.
  The code does not keep this: \<^verbatim>\<open>verify\<close> looks at the UTXO set only, which a pending
  transaction does not change, and \<^verbatim>\<open>_processBlockUTXOs\<close> deletes a key without asking
  whether it is there. On the initialized chain both payments of the same genesis output
  are admitted, the next block confirms both, and the chain holds a double spend.
\<close>

theorem double_spend_confirmed:
  "fst (addToMempool demoRegistry genesisState payBob) = Inr True \<and>
   fst (addToMempool demoRegistry (snd (addToMempool demoRegistry genesisState payBob)) payCarol)
     = Inr True \<and>
   (\<exists>bc b. mineBlock bothPending ''miner'' 20 21 22 = Some (Inr (bc, b)) \<and>
      chain bc = [genesisBlock, b] \<and>
      transactions b = [createCoinbase ''miner'' MINING_REWARD 1 20, payBob, payCarol] \<and>
      hasDoubleSpend (chain bc)) \<and>
   \<not> isCoinbase payBob \<and> \<not> isCoinbase payCarol \<and>
   spentKeys payBob = [(hash genesisCoinbase, 0)] \<and>
   spentKeys payCarol = [(hash genesisCoinbase, 0)] \<and>
   outputs payBob \<noteq> outputs payCarol"
proof -
  have keys: "spentKeys payBob = [(hash genesisCoinbase, 0)]"
    "spentKeys payCarol = [(hash genesisCoinbase, 0)]"
    "\<not> isCoinbase payBob" "\<not> isCoinbase payCarol" "outputs payBob \<noteq> outputs payCarol"
    by (simp_all add: spentKeys_def payBob_def payCarol_def)
  have mined: "\<exists>bc b. mineBlock bothPending ''miner'' 20 21 22 = Some (Inr (bc, b)) \<and>
      chain bc = [genesisBlock, b] \<and>
      transactions b = [createCoinbase ''miner'' MINING_REWARD 1 20, payBob, payCarol] \<and>
      hasDoubleSpend (chain bc)"
    by (simp add: bothPending_eq mineBlock_def Let_def genesisState_fields mine_difficulty_0
        newBlock_def hasDoubleSpend_def genesisBlock_def genesisCoinbase_def spentKeys_def
        payBob_def payCarol_def)
  show ?thesis
    using keys mined by (simp add: admit_payBob admit_payCarol)
qed

subsection \<open>C3: a longer chain received\<close>

lemma validateChain_unlinked:
  "validateChain (replicate (Suc (Suc n)) unlinkedBlock) = Invalid 1 ''broken hash link''"
  by (simp add: validateChain_def unlinkedBlock_def)

text \<open>
  Claim C3 (\<^verbatim>\<open>CHAIN_RESPONSE\<close>). A received chain that is strictly longer than the local one
  replaces the local chain, and the UTXO set becomes the replay of every received block from
  the empty set; a received chain that is not longer leaves chain, UTXO set and mempool as
  they are. \<^verbatim>\<open>validateChain\<close> plays no part: there always is a longer chain that
  \<^verbatim>\<open>validateChain\<close> rejects and that is adopted all the same.
\<close>

theorem handleChainResponse_replaces:
  "(length chainData > length (chain bc) \<longrightarrow>
      handleChainResponse now bc chainData =
        bc\<lparr>chain := chainData, utxoSet := foldl processBlockUTXOs [] chainData\<rparr>) \<and>
   (length chainData \<le> length (chain bc) \<longrightarrow> handleChainResponse now bc chainData = bc) \<and>
   (\<exists>bad. length bad > length (chain bc) \<and> validateChain bad \<noteq> Valid \<and>
          chain (handleChainResponse now bc bad) = bad)"
proof -
  let ?bad = "replicate (Suc (Suc (length (chain bc)))) unlinkedBlock"
  have longer: "length chainData > length (chain bc) \<longrightarrow>
      handleChainResponse now bc chainData =
        bc\<lparr>chain := chainData, utxoSet := foldl processBlockUTXOs [] chainData\<rparr>"
    by (simp add: handleChainResponse_def rebuildChainFromData_eq Let_def)
  have shorter: "length chainData \<le> length (chain bc) \<longrightarrow> handleChainResponse now bc chainData = bc"
    by (simp add: handleChainResponse_def)
  have "length ?bad > length (chain bc) \<and> validateChain ?bad \<noteq> Valid \<and>
        chain (handleChainResponse now bc ?bad) = ?bad"
    by (simp add: validateChain_unlinked handleChainResponse_def rebuildChainFromData_eq
        del: replicate_Suc)
  then have adopted: "\<exists>bad. length bad > length (chain bc) \<and> validateChain bad \<noteq> Valid \<and>
          chain (handleChainResponse now bc bad) = bad"
    by (rule exI)
  from longer shorter adopted show ?thesis by (intro conjI)
qed

theorem handleChainResponse_replaces_witness:
  "length [unlinkedBlock, unlinkedBlock] > length (chain genesisState) \<and>
   validateChain [unlinkedBlock, unlinkedBlock] = Invalid 1 ''broken hash link'' \<and>
   handleChainResponse 0 genesisState [unlinkedBlock, unlinkedBlock] =
     genesisState\<lparr>chain := [unlinkedBlock, unlinkedBlock], utxoSet := []\<rparr> \<and>
   length [genesisBlock] \<le> length (chain genesisState) \<and>
   handleChainResponse 0 genesisState [genesisBlock] = genesisState"
  using handleChainResponse_replaces
          [where chainData = "[unlinkedBlock, unlinkedBlock]" and bc = genesisState and now = 0]
    handleChainResponse_replaces [where chainData = "[genesisBlock]" and bc = genesisState and now = 0]
  by (simp add: genesisState_fields validateChain_def unlinkedBlock_def processBlockUTXOs_def)

subsection \<open>C4: what makes \<^verbatim>\<open>verify\<close> fail\<close>

text \<open>
  The first loop accepts the inputs from position \<open>i\<close> on exactly when each of them resolves
  and some registry entry of the owner's address passes \<^verbatim>\<open>verifySignature\<close>.
\<close>

lemma verifyInputs_iff:
  "verifyInputs reg tx utxos i ins \<longleftrightarrow>
   (\<forall>j<length ins.
      case mapGet utxos (utxoKey (txHash (ins ! j)) (outputIndex (ins ! j))) of
        None \<Rightarrow> False
      | Some utxo \<Rightarrow>
          list_ex (\<lambda>e. walletAddress (snd e) = address utxo \<and>
                        verifySignature reg (hash tx) (nthOpt (signatures tx) (i + j)) (fst e)) reg)"
proof (induction ins arbitrary: i)
  case Nil
  then show ?case by simp
next
  case (Cons inp rest)
  have rest: "verifyInputs reg tx utxos (Suc i) rest \<longleftrightarrow>
     (\<forall>j<length rest.
        case mapGet utxos (utxoKey (txHash (rest ! j)) (outputIndex (rest ! j))) of
          None \<Rightarrow> False
        | Some utxo \<Rightarrow>
            list_ex (\<lambda>e. walletAddress (snd e) = address utxo \<and>
                          verifySignature reg (hash tx) (nthOpt (signatures tx) (i + Suc j)) (fst e)) reg)"
    using Cons.IH [of "Suc i"] unfolding add_Suc_shift .
  show ?case
    by (cases "mapGet utxos (utxoKey (txHash inp) (outputIndex inp))")
       (simp_all add: rest All_less_Suc2)
qed

text \<open>
  In a registry with distinct keys (a \<^verbatim>\<open>Map\<close>), \<^verbatim>\<open>verifySignature\<close> with the key of an
  entry compares the signature with what \<^verbatim>\<open>signData\<close> makes with that entry's private key.
\<close>

lemma verifySignature_entry:
  assumes "distinct (map fst reg)" and "e \<in> set reg"
  shows "verifySignature reg d s (fst e) \<longleftrightarrow> s = Some (signData d (privateKey (snd e)))"
proof -
  from assms have "map_of reg (fst e) = Some (snd e)"
    by (cases e) simp
  then show ?thesis
    by (auto simp: verifySignature_def mapGet_def signData_def)
qed

lemma registry_ownerSigned:
  assumes "distinct (map fst reg)"
  shows "list_ex (\<lambda>e. walletAddress (snd e) = address utxo \<and>
                       verifySignature reg (hash tx) (nthOpt (signatures tx) i) (fst e)) reg
         \<longleftrightarrow> ownerSigned reg tx i utxo"
  unfolding ownerSigned_def list_ex_iff
  using verifySignature_entry [OF assms] by blast

lemma verifyInputs_causes:
  assumes "distinct (map fst reg)"
  shows "verifyInputs reg tx utxos 0 (inputs tx) \<longleftrightarrow>
         \<not> unknownInput tx utxos \<and> \<not> invalidSignature reg tx utxos"
proof -
  let ?n = "length (inputs tx)"
  define res where
    "res j = mapGet utxos (utxoKey (txHash (inputs tx ! j)) (outputIndex (inputs tx ! j)))" for j
  define bad where
    "bad j = (case res j of None \<Rightarrow> False | Some utxo \<Rightarrow> \<not> ownerSigned reg tx j utxo)" for j
  have pointwise:
    "(case res j of
        None \<Rightarrow> False
      | Some utxo \<Rightarrow>
          list_ex (\<lambda>e. walletAddress (snd e) = address utxo \<and>
                        verifySignature reg (hash tx) (nthOpt (signatures tx) j) (fst e)) reg)
     \<longleftrightarrow> res j \<noteq> None \<and> \<not> bad j" for j
    by (cases "res j") (simp_all add: bad_def registry_ownerSigned [OF assms])
  have "unknownInput tx utxos \<longleftrightarrow>
        (\<exists>inp\<in>set (inputs tx). mapGet utxos (utxoKey (txHash inp) (outputIndex inp)) = None)"
    by (simp add: unknownInput_def list_ex_iff)
  also have "\<dots> \<longleftrightarrow> (\<exists>j<?n. res j = None)"
    unfolding res_def by (metis in_set_conv_nth)
  finally have unknown: "unknownInput tx utxos \<longleftrightarrow> (\<exists>j<?n. res j = None)" .
  have invalid: "invalidSignature reg tx utxos \<longleftrightarrow> (\<exists>j<?n. bad j)"
    by (simp add: invalidSignature_def list_ex_iff bad_def res_def Bex_def)
  have "verifyInputs reg tx utxos 0 (inputs tx) \<longleftrightarrow> (\<forall>j<?n. res j \<noteq> None \<and> \<not> bad j)"
    unfolding verifyInputs_iff add_0 res_def [symmetric] pointwise ..
  also have "\<dots> \<longleftrightarrow> \<not> (\<exists>j<?n. res j = None) \<and> \<not> (\<exists>j<?n. bad j)"
    by auto
  finally show ?thesis
    by (simp only: unknown invalid)
qed

text \<open>Within the safe range the two sums of \<^verbatim>\<open>verify\<close> are the integer totals.\<close>

lemma foldl_resolved:
  "foldl (\<lambda>sum inp.
            numAdd sum (case mapGet utxos (utxoKey (txHash inp) (outputIndex inp)) of
                          Some utxo \<Rightarrow> amountNumber (amount utxo) | None \<Rightarrow> Finite 0))
         a ins
   = foldl (\<lambda>sum x. numAdd sum (amountNumber x)) a
       (map (\<lambda>inp. case mapGet utxos (utxoKey (txHash inp) (outputIndex inp)) of
                     Some utxo \<Rightarrow> amount utxo | None \<Rightarrow> 0) ins)"
  by (induction ins arbitrary: a) (simp_all add: amountNumber_0 split: option.split)

lemma verify_sums_exact:
  assumes "safeTotals tx utxos"
  shows "foldl (\<lambda>sum inp.
                  numAdd sum (case mapGet utxos (utxoKey (txHash inp) (outputIndex inp)) of
                                Some utxo \<Rightarrow> amountNumber (amount utxo) | None \<Rightarrow> Finite 0))
               (Finite 0) (inputs tx) = Finite (of_int (sum_list (resolvedAmounts tx utxos)))"
    and "foldl (\<lambda>sum out. numAdd sum (amountNumber (amount out))) (Finite 0) (outputs tx)
           = Finite (of_int (sum_list (map amount (outputs tx))))"
proof -
  have "foldl (\<lambda>sum inp.
                  numAdd sum (case mapGet utxos (utxoKey (txHash inp) (outputIndex inp)) of
                                Some utxo \<Rightarrow> amountNumber (amount utxo) | None \<Rightarrow> Finite 0))
               (Finite 0) (inputs tx)
             = foldl (\<lambda>sum x. numAdd sum (amountNumber x)) (Finite (of_int 0))
                 (resolvedAmounts tx utxos)"
    unfolding resolvedAmounts_def by (simp only: foldl_resolved of_int_0)
  also have "\<dots> = Finite (of_int (0 + sum_list (resolvedAmounts tx utxos)))"
    using assms by (intro foldl_numAdd_exact) (simp add: safeTotals_def)
  finally show "foldl (\<lambda>sum inp.
                  numAdd sum (case mapGet utxos (utxoKey (txHash inp) (outputIndex inp)) of
                                Some utxo \<Rightarrow> amountNumber (amount utxo) | None \<Rightarrow> Finite 0))
               (Finite 0) (inputs tx) = Finite (of_int (sum_list (resolvedAmounts tx utxos)))"
    by simp
  have "foldl (\<lambda>sum out. numAdd sum (amountNumber (amount out))) (Finite 0) (outputs tx)
        = foldl (\<lambda>sum x. numAdd sum (amountNumber x)) (Finite (of_int 0))
            (map amount (outputs tx))"
    by (simp add: foldl_map)
  also have "\<dots> = Finite (of_int (0 + sum_list (map amount (outputs tx))))"
    using assms by (intro foldl_numAdd_exact) (simp add: safeTotals_def)
  finally show "foldl (\<lambda>sum out. numAdd sum (amountNumber (amount out))) (Finite 0) (outputs tx)
                  = Finite (of_int (sum_list (map amount (outputs tx))))"
    by simp
qed

text \<open>
  Claim C4 says that \<^verbatim>\<open>verify\<close> fails when the total of the resolved input amounts is
  less than the total of the output amounts. The source adds the amounts as doubles, one
  after the other, and a double cannot hold \<open>2 ^ 53 + 1\<close>. The wallet holds one output of
  \<open>2 ^ 53\<close> and signs a payment of it to three receivers, of \<open>2 ^ 53\<close>, 1 and 1: every input is
  known and signed by its owner, the outputs exceed the input by 2, and \<^verbatim>\<open>verify\<close>
  succeeds, because \<open>2 ^ 53 + 1\<close> rounds back to \<open>2 ^ 53\<close> twice.
\<close>

theorem verify_accepts_rounded_overspend:
  "\<not> isCoinbase roundedSpend \<and>
   \<not> unknownInput roundedSpend largeUtxos \<and>
   \<not> invalidSignature demoRegistry roundedSpend largeUtxos \<and>
   sum_list (resolvedAmounts roundedSpend largeUtxos) = 2 ^ 53 \<and>
   sum_list (map amount (outputs roundedSpend)) = 2 ^ 53 + 2 \<and>
   insufficientFunds roundedSpend largeUtxos \<and>
   verify demoRegistry roundedSpend largeUtxos"
proof -
  have utxos: "largeUtxos =
      [(utxoKey (hash largeCoinbase) 0,
        \<lparr>address = walletAddress aliceWallet, amount = 9007199254740992\<rparr>)]"
    by (simp add: largeUtxos_def largeCoinbase_def processTx_def)
  have tie: "toDouble 9007199254740993 = Finite 9007199254740992"
    using toDouble_int_eval [of 1 9007199254740993] by simp
  have whole: "amountNumber 9007199254740992 = Finite 9007199254740992"
    "amountNumber 1 = Finite 1"
    using amountNumber_exact [of 9007199254740992] amountNumber_exact [of 1] by simp_all
  have signed: "\<not> invalidSignature demoRegistry roundedSpend largeUtxos"
    by (simp add: invalidSignature_def ownerSigned_def utxos roundedSpend_def mapGet_def
        demoRegistry_def aliceWallet_def nthOpt_def)
  have run: "verify demoRegistry roundedSpend largeUtxos"
    by (simp add: verify_def utxos roundedSpend_def mapGet_def demoRegistry_def aliceWallet_def
        verifySignature_def nthOpt_def signData_def whole tie toDouble_small)
  show ?thesis
    using signed run
    by (simp add: insufficientFunds_def unknownInput_def resolvedAmounts_def utxos
        roundedSpend_def mapGet_def)
qed

text \<open>
  Claim C4 as amended. \<^verbatim>\<open>verify\<close> succeeds on every coinbase transaction. On a transaction
  that is not a coinbase it fails when an input's UTXO is absent (\<open>unknownInput\<close>) and when,
  for an input that resolves, no registered wallet of the owner's address made the
  signature at the input's position (\<open>invalidSignature\<close>). When the absolute values of the
  resolved input amounts, and those of the output amounts, add up to at most \<open>2 ^ 53\<close>, it
  also fails when the input total is below the output total (\<open>insufficientFunds\<close>), and it
  succeeds when none of the three holds. The source reports each failure as the same
  \<^verbatim>\<open>false\<close>; the three names are the specification's names of the causes. The registry is
  a \<^verbatim>\<open>Map\<close>: its keys are distinct.
\<close>

theorem verify_failure_causes:
  assumes "distinct (map fst reg)"
  shows "(isCoinbase tx \<longrightarrow> verify reg tx utxos) \<and>
         (\<not> isCoinbase tx \<and> unknownInput tx utxos \<longrightarrow> \<not> verify reg tx utxos) \<and>
         (\<not> isCoinbase tx \<and> invalidSignature reg tx utxos \<longrightarrow> \<not> verify reg tx utxos) \<and>
         (\<not> isCoinbase tx \<and> safeTotals tx utxos \<longrightarrow>
            (verify reg tx utxos \<longleftrightarrow>
               \<not> unknownInput tx utxos \<and> \<not> invalidSignature reg tx utxos \<and>
               \<not> insufficientFunds tx utxos))"
proof -
  have coinbase: "isCoinbase tx \<longrightarrow> verify reg tx utxos"
    by (simp add: verify_def)
  have loop: "\<not> isCoinbase tx \<and> \<not> verifyInputs reg tx utxos 0 (inputs tx) \<longrightarrow>
              \<not> verify reg tx utxos"
    by (simp add: verify_def)
  have sums: "\<not> isCoinbase tx \<and> safeTotals tx utxos \<longrightarrow>
              (verify reg tx utxos \<longleftrightarrow>
                 verifyInputs reg tx utxos 0 (inputs tx) \<and> \<not> insufficientFunds tx utxos)"
    by (auto simp: verify_def Let_def verify_sums_exact insufficientFunds_def)
  show ?thesis
    using coinbase loop sums unfolding verifyInputs_causes [OF assms] by blast
qed

theorem verify_failure_causes_witness:
  "distinct (map fst demoRegistry) \<and>
   isCoinbase forgedCoinbase \<and> verify demoRegistry forgedCoinbase [] \<and>
   \<not> isCoinbase unknownSpend \<and> unknownInput unknownSpend (utxoSet genesisState) \<and>
   \<not> verify demoRegistry unknownSpend (utxoSet genesisState) \<and>
   \<not> isCoinbase unsignedSpend \<and> invalidSignature demoRegistry unsignedSpend (utxoSet genesisState) \<and>
   \<not> verify demoRegistry unsignedSpend (utxoSet genesisState) \<and>
   \<not> isCoinbase overSpend \<and> safeTotals overSpend (utxoSet genesisState) \<and>
   \<not> unknownInput overSpend (utxoSet genesisState) \<and>
   \<not> invalidSignature demoRegistry overSpend (utxoSet genesisState) \<and>
   insufficientFunds overSpend (utxoSet genesisState) \<and>
   \<not> verify demoRegistry overSpend (utxoSet genesisState) \<and>
   \<not> isCoinbase payBob \<and> safeTotals payBob (utxoSet genesisState) \<and>
   \<not> unknownInput payBob (utxoSet genesisState) \<and>
   \<not> invalidSignature demoRegistry payBob (utxoSet genesisState) \<and>
   \<not> insufficientFunds payBob (utxoSet genesisState) \<and>
   verify demoRegistry payBob (utxoSet genesisState)"
proof -
  have reg: "distinct (map fst demoRegistry)"
    by (simp add: demoRegistry_def)
  have cb: "isCoinbase forgedCoinbase" "\<not> isCoinbase unknownSpend" "\<not> isCoinbase unsignedSpend"
    "\<not> isCoinbase overSpend" "\<not> isCoinbase payBob"
    by (simp_all add: forgedCoinbase_def unknownSpend_def unsignedSpend_def overSpend_def payBob_def)
  have unknown: "unknownInput unknownSpend (utxoSet genesisState)"
    by (simp add: unknownInput_def unknownSpend_def genesisState_fields mapGet_def utxoKey_same_index
        genesisCoinbase_def hash_createCoinbase_neq)
  have unsigned: "invalidSignature demoRegistry unsignedSpend (utxoSet genesisState)"
    by (simp add: invalidSignature_def ownerSigned_def unsignedSpend_def genesisState_fields
        mapGet_def nthOpt_def demoRegistry_def)
  have over: "safeTotals overSpend (utxoSet genesisState)"
    "\<not> unknownInput overSpend (utxoSet genesisState)"
    "\<not> invalidSignature demoRegistry overSpend (utxoSet genesisState)"
    "insufficientFunds overSpend (utxoSet genesisState)"
    by (simp_all add: safeTotals_def unknownInput_def invalidSignature_def ownerSigned_def
        insufficientFunds_def resolvedAmounts_def overSpend_def genesisState_fields mapGet_def
        nthOpt_def demoRegistry_def aliceWallet_def)
  have pay: "safeTotals payBob (utxoSet genesisState)"
    "\<not> unknownInput payBob (utxoSet genesisState)"
    "\<not> invalidSignature demoRegistry payBob (utxoSet genesisState)"
    "\<not> insufficientFunds payBob (utxoSet genesisState)"
    by (simp_all add: safeTotals_def unknownInput_def invalidSignature_def ownerSigned_def
        insufficientFunds_def resolvedAmounts_def payBob_def genesisState_fields mapGet_def
        nthOpt_def demoRegistry_def aliceWallet_def)
  show ?thesis
    using verify_failure_causes [OF reg, of forgedCoinbase "[]"]
      verify_failure_causes [OF reg, of unknownSpend "utxoSet genesisState"]
      verify_failure_causes [OF reg, of unsignedSpend "utxoSet genesisState"]
      verify_failure_causes [OF reg, of overSpend "utxoSet genesisState"]
      verify_failure_causes [OF reg, of payBob "utxoSet genesisState"]
      reg cb unknown unsigned over pay
    by simp
qed

subsection \<open>C5: what \<^verbatim>\<open>validateChain\<close> notices of a mutated transaction\<close>

lemma validateFrom_prev:
  "blockHash p = blockHash q \<Longrightarrow> validateFrom k p bs = validateFrom k q bs"
  by (cases bs) simp_all

lemma validateFrom_Cons_Valid:
  "validateFrom k prev (b # rest) = Valid \<Longrightarrow>
   previousHash b = blockHash prev \<and> startsWith (blockHash b) (repeat ''0'' (difficulty b)) \<and>
   sha256 (getHeaderString b) = blockHash b \<and>
   computeRoot (map hash (transactions b)) = merkleRoot b \<and> validateFrom (k + 1) b rest = Valid"
  by (simp split: if_splits)

lemma validateFrom_tamper:
  "validateFrom k prev bs = Valid \<Longrightarrow> p < length bs \<Longrightarrow>
   validateFrom k prev (bs[p := (bs ! p)\<lparr>transactions := new\<rparr>]) =
     (if computeRoot (map hash new) = merkleRoot (bs ! p) then Valid
      else Invalid (k + p) ''merkle mismatch'')"
proof (induction bs arbitrary: k prev p)
  case Nil
  then show ?case by simp
next
  case (Cons b rest)
  note ok = validateFrom_Cons_Valid [OF Cons.prems(1)]
  show ?case
  proof (cases p)
    case 0
    have "validateFrom (k + 1) (b\<lparr>transactions := new\<rparr>) rest = validateFrom (k + 1) b rest"
      by (rule validateFrom_prev) simp
    with ok 0 show ?thesis by simp
  next
    case (Suc q)
    with Cons.prems have "q < length rest" by simp
    from Cons.IH [OF _ this, of "k + 1" b] ok
    have "validateFrom (k + 1) b (rest[q := (rest ! q)\<lparr>transactions := new\<rparr>]) =
            (if computeRoot (map hash new) = merkleRoot (rest ! q) then Valid
             else Invalid (k + 1 + q) ''merkle mismatch'')"
      by simp
    with ok Suc show ?thesis by simp
  qed
qed

text \<open>
  Claim C5 says that mutating any field of a confirmed transaction of a block after genesis
  makes \<^verbatim>\<open>validateChain\<close> report a Merkle mismatch at that block. It does not:
  \<^verbatim>\<open>validateChain\<close> recomputes the Merkle root from the stored \<^verbatim>\<open>hash\<close> fields and never
  recomputes a transaction's hash from its contents. On the chain mined above, replacing the
  outputs of the confirmed coinbase leaves the chain valid.
\<close>

theorem tamper_outputs_not_detected:
  "validateChain minedChain = Valid \<and> length minedChain = 2 \<and>
   transactions (minedChain ! 1) = [createCoinbase ''miner'' MINING_REWARD 1 20] \<and>
   outputs (transactions
     (tamperTx 1 0 (\<lambda>tx. tx\<lparr>outputs := [\<lparr>address = ''mallory'', amount = 1000000\<rparr>]\<rparr>) minedChain ! 1) ! 0)
     = [\<lparr>address = ''mallory'', amount = 1000000\<rparr>] \<and>
   validateChain
     (tamperTx 1 0 (\<lambda>tx. tx\<lparr>outputs := [\<lparr>address = ''mallory'', amount = 1000000\<rparr>]\<rparr>) minedChain)
     = Valid"
  by (simp add: minedChain_eq validateChain_def minedBlock_def newBlock_def getHeaderString_def
      tamperTx_def)

text \<open>
  Claim C5 as amended. In a chain that \<^verbatim>\<open>validateChain\<close> accepts, mutating a transaction of
  a block \<open>i\<close> after genesis is reported, as a Merkle mismatch at \<open>i\<close>, exactly when the Merkle
  root recomputed from the block's stored transaction hashes no longer equals the stored
  root; a mutation that keeps the transaction's \<^verbatim>\<open>hash\<close> field (of inputs, outputs,
  signatures, timestamp or the coinbase flag) leaves the chain valid.
\<close>

theorem tamper_found_only_through_hash:
  assumes "validateChain c = Valid" and "0 < i" and "i < length c"
    and "j < length (transactions (c ! i))"
  shows "validateChain (tamperTx i j f c) =
           (if computeRoot (map hash (transactions (tamperTx i j f c ! i))) = merkleRoot (c ! i)
            then Valid else Invalid i ''merkle mismatch'') \<and>
         (hash (f (transactions (c ! i) ! j)) = hash (transactions (c ! i) ! j) \<longrightarrow>
            validateChain (tamperTx i j f c) = Valid)"
proof -
  from assms(2,3) obtain g bs where c: "c = g # bs" by (cases c) auto
  from assms(2) obtain p where p: "i = Suc p" by (cases i) auto
  let ?new = "(transactions (bs ! p))[j := f (transactions (bs ! p) ! j)]"
  have valid: "validateFrom 1 g bs = Valid" using assms(1) c by (simp add: validateChain_def)
  have plen: "p < length bs" using assms(3) c p by simp
  have first: "validateChain (tamperTx i j f c) =
           (if computeRoot (map hash ?new) = merkleRoot (bs ! p) then Valid
            else Invalid i ''merkle mismatch'')"
    using validateFrom_tamper [OF valid plen, of ?new] c p
    by (simp add: tamperTx_def validateChain_def)
  have at_i: "transactions (tamperTx i j f c ! i) = ?new"
    using plen c p by (simp add: tamperTx_def)
  have tail_ok: "computeRoot (map hash (transactions (bs ! p))) = merkleRoot (bs ! p)"
    using validateFrom_tamper [OF valid plen, of "transactions (bs ! p)"] valid
    by (simp split: if_splits)
  have kept: "hash (f (transactions (bs ! p) ! j)) = hash (transactions (bs ! p) ! j) \<Longrightarrow>
              map hash ?new = map hash (transactions (bs ! p))"
    by (metis list_update_id map_update)
  have ci: "c ! i = bs ! p" using c p by simp
  show ?thesis
    unfolding at_i ci using first tail_ok kept by (auto simp: ci)
qed

theorem tamper_found_only_through_hash_witness:
  "validateChain minedChain = Valid \<and> (0::nat) < 1 \<and> 1 < length minedChain \<and>
   0 < length (transactions (minedChain ! 1)) \<and>
   validateChain (tamperTx 1 0 (\<lambda>tx. tx\<lparr>hash := ''forged''\<rparr>) minedChain)
     = Invalid 1 ''merkle mismatch'' \<and>
   validateChain (tamperTx 1 0 (\<lambda>tx. tx\<lparr>timestamp := 99\<rparr>) minedChain) = Valid"
proof -
  have pre: "validateChain minedChain = Valid" "(0::nat) < 1" "1 < length minedChain"
    "0 < length (transactions (minedChain ! 1))"
    using validateChain_minedChain by (simp_all add: minedChain_eq minedBlock_def newBlock_def)
  have root:
    "computeRoot (map hash (transactions
        (tamperTx (Suc 0) 0 (\<lambda>tx. tx\<lparr>hash := ''forged''\<rparr>) minedChain ! Suc 0))) = ''forged''"
    "computeRoot (map hash (transactions
        (tamperTx (Suc 0) 0 (\<lambda>tx. tx\<lparr>timestamp := 99\<rparr>) minedChain ! Suc 0)))
       = hash (createCoinbase ''miner'' MINING_REWARD 1 20)"
    "merkleRoot (minedChain ! Suc 0) = hash (createCoinbase ''miner'' MINING_REWARD 1 20)"
    by (simp_all add: minedChain_eq minedBlock_def newBlock_def tamperTx_def)
  from tamper_found_only_through_hash [OF pre, of "\<lambda>tx. tx\<lparr>hash := ''forged''\<rparr>"]
    tamper_found_only_through_hash [OF pre, of "\<lambda>tx. tx\<lparr>timestamp := 99\<rparr>"]
  show ?thesis
    using pre by (simp add: root hash_createCoinbase_neq)
qed

subsection \<open>C6: the first mined block\<close>

text \<open>
  Claim C6 says that on every genesis-only chain with an empty mempool \<^verbatim>\<open>mineBlock\<close> raises
  the miner's balance by exactly 50 and adds exactly one entry to the UTXO set. Two
  genesis-only chains, as \<^verbatim>\<open>rebuildChainFromData\<close> loads them, on which it does not. On
  \<open>richGenesis\<close> the miner already holds \<open>2 ^ 60\<close>: the balance is summed in doubles,
  \<open>2 ^ 60 + 50\<close> rounds to \<open>2 ^ 60\<close>, and \<^verbatim>\<open>getBalance\<close> returns the same number before and
  after. On \<open>collidingGenesis\<close> the genesis output is stored under the key that the new
  coinbase output gets: \<^verbatim>\<open>Map.set\<close> overwrites it, and the UTXO set has one entry before
  and one entry after.
\<close>

theorem mineBlock_without_gain:
  "length (chain richGenesis) = 1 \<and> mempool richGenesis = [] \<and>
   getBalance richGenesis ''miner'' = Finite (2 ^ 60) \<and>
   (\<exists>bc' b. mineBlock richGenesis ''miner'' 20 21 22 = Some (Inr (bc', b)) \<and>
      length (chain bc') = 2 \<and>
      exactBalance bc' ''miner'' = 2 ^ 60 + 50 \<and>
      getBalance bc' ''miner'' = Finite (2 ^ 60)) \<and>
   length (chain collidingGenesis) = 1 \<and> mempool collidingGenesis = [] \<and>
   utxoSet collidingGenesis =
     [(utxoKey (hash (createCoinbase ''miner'' MINING_REWARD 1 20)) 0,
       \<lparr>address = ''founder'', amount = 5000\<rparr>)] \<and>
   (\<exists>bc' b. mineBlock collidingGenesis ''miner'' 20 21 22 = Some (Inr (bc', b)) \<and>
      length (chain bc') = 2 \<and>
      utxoSet bc' =
        [(utxoKey (hash (createCoinbase ''miner'' MINING_REWARD 1 20)) 0,
          \<lparr>address = ''miner'', amount = 50\<rparr>)])"
proof -
  have before: "getBalance richGenesis ''miner'' = Finite (2 ^ 60)"
    by (simp add: getBalance_def richGenesis_eq amountNumber_def toDouble_examples
        mathRound_numeral)
  have rich: "mineBlock richGenesis ''miner'' 20 21 22 =
      Some (Inr (richGenesis\<lparr>chain := [richStored, minedOn richStored],
                   utxoSet := utxoSet richGenesis @
                     [(utxoKey (hash (createCoinbase ''miner'' MINING_REWARD 1 20)) 0,
                       \<lparr>address = ''miner'', amount = 50\<rparr>)],
                   mempool := [],
                   stats := addStats (stats richGenesis) 1 22\<rparr>,
                 minedOn richStored))"
    by (simp add: mineBlock_def Let_def richGenesis_eq mine_difficulty_0 newBlock_def
        minedOn_def processBlockUTXOs_def processTx_coinbase mapSet_fresh MINING_REWARD_def
        mapGet_def utxoKey_same_index hash_createCoinbase_neq)
  have after: "getBalance
      (richGenesis\<lparr>chain := [richStored, minedOn richStored],
                   utxoSet := utxoSet richGenesis @
                     [(utxoKey (hash (createCoinbase ''miner'' MINING_REWARD 1 20)) 0,
                       \<lparr>address = ''miner'', amount = 50\<rparr>)],
                   mempool := [],
                   stats := addStats (stats richGenesis) 1 22\<rparr>) ''miner'' = Finite (2 ^ 60)"
    by (simp add: getBalance_def richGenesis_eq amountNumber_def toDouble_examples
        toDouble_small mathRound_numeral)
  have colliding: "mineBlock collidingGenesis ''miner'' 20 21 22 =
      Some (Inr (collidingGenesis\<lparr>chain := [collidingStored, minedOn collidingStored],
                   utxoSet :=
                     [(utxoKey (hash (createCoinbase ''miner'' MINING_REWARD 1 20)) 0,
                       \<lparr>address = ''miner'', amount = 50\<rparr>)],
                   mempool := [],
                   stats := addStats (stats collidingGenesis) 1 22\<rparr>,
                 minedOn collidingStored))"
    by (simp add: mineBlock_def Let_def collidingGenesis_eq mine_difficulty_0 newBlock_def
        minedOn_def processBlockUTXOs_def processTx_coinbase MINING_REWARD_def)
  show ?thesis
    unfolding rich colliding using before after
    by (simp add: richGenesis_eq collidingGenesis_eq exactBalance_def heldAmounts_def)
qed

text \<open>
  Claim C6 as amended. On a genesis-only chain with an empty mempool, when some nonce from 1
  to \<open>2 ^ 53\<close> meets the difficulty (so that the search ends), when the key of the new
  coinbase output is not yet a key of the UTXO set, and when one hundred times the miner's
  held amounts and the reward stays within \<open>2 ^ 53\<close> (so that doubles hold the balance
  exactly): \<^verbatim>\<open>mineBlock\<close> returns, the chain then has length 2, \<^verbatim>\<open>getBalance\<close> of the miner
  was the integer balance and is the integer balance plus \<open>MINING_REWARD = 50\<close>, and the UTXO
  set is the old one followed by exactly one entry, under the key of the coinbase
  transaction's hash and output index 0.
\<close>

theorem mineBlock_from_genesis:
  assumes "length (chain bc) = 1" and "mempool bc = []"
    and "mapGet (utxoSet bc) (utxoKey (hash (createCoinbase miner MINING_REWARD 1 txNow)) 0) = None"
    and "0 < n" and "n \<le> 2 ^ 53"
    and "meetsDifficulty
           (newBlock 1 (blockHash (last (chain bc)))
              [createCoinbase miner MINING_REWARD 1 txNow] (chainDifficulty bc) blockNow) n"
    and "(sum_list (map abs (heldAmounts bc miner)) + 50) * 100 \<le> 2 ^ 53"
  shows "\<exists>bc' b. mineBlock bc miner txNow blockNow elapsed = Some (Inr (bc', b)) \<and>
           chain bc' = chain bc @ [b] \<and> length (chain bc') = 2 \<and>
           getBalance bc miner = Finite (of_int (exactBalance bc miner)) \<and>
           getBalance bc' miner = Finite (of_int (exactBalance bc miner + MINING_REWARD)) \<and>
           MINING_REWARD = 50 \<and>
           utxoSet bc' =
             utxoSet bc @ [(utxoKey (hash (createCoinbase miner MINING_REWARD 1 txNow)) 0,
                            \<lparr>address = miner, amount = 50\<rparr>)]"
proof -
  let ?cb = "createCoinbase miner MINING_REWARD 1 txNow"
  let ?b = "newBlock 1 (blockHash (last (chain bc))) [?cb] (chainDifficulty bc) blockNow"
  have "nonce ?b < n" "difficulty ?b = chainDifficulty bc"
    using assms(4) by (simp_all add: newBlock_def)
  with mine_finds [of ?b n elapsed] assms(5,6)
  obtain m where m:
    "mine ?b elapsed =
       Some (?b\<lparr>nonce := m, blockHash := sha256 (getHeaderString (?b\<lparr>nonce := m\<rparr>)),
                miningTime := elapsed\<rparr>, m - nonce ?b)"
    by (auto simp: meetsDifficulty_def)
  let ?b' = "?b\<lparr>nonce := m, blockHash := sha256 (getHeaderString (?b\<lparr>nonce := m\<rparr>)),
                miningTime := elapsed\<rparr>"
  let ?bc' = "bc\<lparr>chain := chain bc @ [?b'],
                 utxoSet := utxoSet bc @ [(utxoKey (hash ?cb) 0, \<lparr>address = miner, amount = 50\<rparr>)],
                 mempool := [],
                 stats := addStats (stats bc) (m - nonce ?b) (miningTime ?b')\<rparr>"
  have utxo: "processBlockUTXOs (utxoSet bc) ?b' =
                utxoSet bc @ [(utxoKey (hash ?cb) 0, \<lparr>address = miner, amount = 50\<rparr>)]"
    using assms(3)
    by (simp add: processBlockUTXOs_def newBlock_def mapSet_fresh MINING_REWARD_def
        processTx_coinbase [of _ "\<lparr>address = miner, amount = 50\<rparr>"])
  have ne: "chain bc \<noteq> []" using assms(1) by auto
  have run: "mineBlock bc miner txNow blockNow elapsed = Some (Inr (?bc', ?b'))"
    using ne assms(1,2) m utxo by (simp add: mineBlock_def Let_def)
  have nn: "0 \<le> sum_list (map abs (heldAmounts bc miner))" by (rule sum_list_abs_nonneg)
  have held: "heldAmounts ?bc' miner = heldAmounts bc miner @ [50]"
    by (simp add: heldAmounts_def)
  have safe: "sum_list (map abs (heldAmounts bc miner)) * 100 \<le> 2 ^ 53"
    "sum_list (map abs (heldAmounts ?bc' miner)) * 100 \<le> 2 ^ 53"
    using assms(7) nn unfolding held by simp_all
  have bal: "getBalance bc miner = Finite (of_int (exactBalance bc miner))"
    using safe(1) by (rule getBalance_exact)
  have reward: "exactBalance ?bc' miner = exactBalance bc miner + MINING_REWARD"
    unfolding exactBalance_def held by (simp add: MINING_REWARD_def)
  have "getBalance ?bc' miner = Finite (of_int (exactBalance ?bc' miner))"
    using safe(2) by (rule getBalance_exact)
  then have bal': "getBalance ?bc' miner = Finite (of_int (exactBalance bc miner + MINING_REWARD))"
    unfolding reward .
  show ?thesis
    unfolding run using assms(1) bal bal' by (simp add: MINING_REWARD_def)
qed

theorem mineBlock_from_genesis_witness:
  "length (chain loadedGenesis) = 1 \<and> mempool loadedGenesis = [] \<and>
   mapGet (utxoSet loadedGenesis) (utxoKey (hash (createCoinbase ''miner'' MINING_REWARD 1 20)) 0)
     = None \<and>
   meetsDifficulty
     (newBlock 1 (blockHash (last (chain loadedGenesis)))
        [createCoinbase ''miner'' MINING_REWARD 1 20] (chainDifficulty loadedGenesis) 21) 1 \<and>
   (sum_list (map abs (heldAmounts loadedGenesis ''miner'')) + 50) * 100 \<le> 2 ^ 53 \<and>
   exactBalance loadedGenesis ''miner'' = 0 \<and>
   getBalance loadedGenesis ''miner'' = Finite 0 \<and>
   (\<exists>bc' b. mineBlock loadedGenesis ''miner'' 20 21 22 = Some (Inr (bc', b)) \<and>
      chain bc' = [storedGenesis, b] \<and> length (chain bc') = 2 \<and>
      getBalance bc' ''miner'' = Finite 50 \<and>
      utxoSet bc' =
        [(utxoKey ''stored-genesis-coinbase'' 0, \<lparr>address = ''founder'', amount = 5000\<rparr>),
         (utxoKey (hash (createCoinbase ''miner'' MINING_REWARD 1 20)) 0,
          \<lparr>address = ''miner'', amount = 50\<rparr>)])"
proof -
  have pre: "length (chain loadedGenesis) = 1" "mempool loadedGenesis = []"
    "mapGet (utxoSet loadedGenesis) (utxoKey (hash (createCoinbase ''miner'' MINING_REWARD 1 20)) 0)
       = None"
    "(0::nat) < 1" "(1::nat) \<le> 2 ^ 53"
    "meetsDifficulty
       (newBlock 1 (blockHash (last (chain loadedGenesis)))
          [createCoinbase ''miner'' MINING_REWARD 1 20] (chainDifficulty loadedGenesis) 21) 1"
    "(sum_list (map abs (heldAmounts loadedGenesis ''miner'')) + 50) * 100 \<le> 2 ^ 53"
    by (simp_all add: loadedGenesis_eq mapGet_def utxoKey_same_index hash_createCoinbase_neq
        meetsDifficulty_def newBlock_def heldAmounts_def)
  have bal: "exactBalance loadedGenesis ''miner'' = 0"
    by (simp add: loadedGenesis_eq exactBalance_def heldAmounts_def)
  from mineBlock_from_genesis [OF pre, of 22] bal pre
  show ?thesis
    by (auto simp: loadedGenesis_eq MINING_REWARD_def)
qed

subsection \<open>C7: the search of \<^verbatim>\<open>mine\<close>\<close>

text \<open>
  The nonces that the search visits from a starting nonce of at most \<open>2 ^ 53\<close> are those
  from \<open>incrementNonce (nonce b)\<close> to \<open>2 ^ 53\<close>: the loop increments before it hashes, and at
  \<open>2 ^ 53\<close> the increment no longer changes the nonce. If one of them meets the difficulty
  the search returns; if it returns, one of them meets the difficulty.
\<close>

lemma meetsDifficulty_update [simp]:
  "meetsDifficulty (b\<lparr>nonce := m, blockHash := h\<rparr>) n = meetsDifficulty b n"
  by (simp add: meetsDifficulty_def getHeaderString_def)

lemma getHeaderString_hashed:
  "getHeaderString (b\<lparr>blockHash := h, nonce := n\<rparr>) = getHeaderString (b\<lparr>nonce := n\<rparr>)"
  by (simp add: getHeaderString_def)

lemma incrementNonce_bounds:
  "n \<le> incrementNonce n" "n \<le> 2 ^ 53 \<Longrightarrow> incrementNonce n \<le> 2 ^ 53"
  by (simp_all add: incrementNonce_def)

lemma mineLoop_visits:
  assumes "nonce b \<le> 2 ^ 53" and "incrementNonce (nonce b) \<le> n" and "n \<le> 2 ^ 53"
    and "meetsDifficulty b n"
  shows "\<exists>m. incrementNonce (nonce b) \<le> m \<and> m \<le> n \<and>
           mineLoop b a =
             Some (b\<lparr>nonce := m, blockHash := sha256 (getHeaderString (b\<lparr>nonce := m\<rparr>))\<rparr>,
                   a + (if nonce b < 2 ^ 53 then m - nonce b else 1)) \<and>
           meetsDifficulty b m"
proof (cases "nonce b < 2 ^ 53")
  case True
  then have "nonce b < n" using assms(2) by (simp add: incrementNonce_def)
  from mineLoop_finds [OF this assms(3), of a] assms(4) obtain m where
    m: "nonce b < m" "m \<le> n"
    "mineLoop b a =
       Some (b\<lparr>nonce := m, blockHash := sha256 (getHeaderString (b\<lparr>nonce := m\<rparr>))\<rparr>,
             a + (m - nonce b))"
    "meetsDifficulty b m"
    unfolding meetsDifficulty_def by blast
  with True show ?thesis
    by (intro exI [of _ m]) (simp add: incrementNonce_def)
next
  case False
  with assms have n: "n = nonce b" and inc: "incrementNonce (nonce b) = nonce b"
    by (simp_all add: incrementNonce_def)
  have same: "b\<lparr>nonce := nonce b\<rparr> = b" by simp
  have "mineLoop b a =
          Some (b\<lparr>nonce := nonce b,
                  blockHash := sha256 (getHeaderString (b\<lparr>nonce := nonce b\<rparr>))\<rparr>, a + 1)"
    using assms(4) unfolding n meetsDifficulty_def
    by (subst mineLoop.simps) (simp add: inc)
  with False assms(4) show ?thesis
    by (intro exI [of _ "nonce b"]) (simp add: inc n)
qed

lemma mineLoop_returns_only_aux:
  assumes "mineLoop b a = Some r"
  shows "nonce b \<le> 2 ^ 53 \<longrightarrow>
           (\<exists>n. incrementNonce (nonce b) \<le> n \<and> n \<le> 2 ^ 53 \<and> meetsDifficulty b n)"
proof (rule mineLoop.raw_induct
    [where P = "\<lambda>b a r. nonce b \<le> 2 ^ 53 \<longrightarrow>
                  (\<exists>n. incrementNonce (nonce b) \<le> n \<and> n \<le> 2 ^ 53 \<and> meetsDifficulty b n)",
     OF _ assms], goal_cases)
  case (1 loop b a r)
  let ?m = "incrementNonce (nonce b)"
  let ?h = "sha256 (getHeaderString (b\<lparr>nonce := ?m\<rparr>))"
  show ?case
  proof (intro impI)
    assume "nonce b \<le> 2 ^ 53"
    then have m: "?m \<le> 2 ^ 53" by (rule incrementNonce_bounds)
    show "\<exists>n. ?m \<le> n \<and> n \<le> 2 ^ 53 \<and> meetsDifficulty b n"
    proof (cases "meetsDifficulty b ?m")
      case True
      with m show ?thesis by blast
    next
      case False
      then have "loop (b\<lparr>nonce := ?m, blockHash := ?h\<rparr>) (a + 1) = Some r"
        using 1(2) by (simp add: meetsDifficulty_def)
      from 1(1) [OF this] m obtain n where
        n: "incrementNonce ?m \<le> n" "n \<le> 2 ^ 53" "meetsDifficulty b n"
        by auto
      have "?m \<le> incrementNonce ?m" by (rule incrementNonce_bounds)
      with n show ?thesis by (intro exI [of _ n]) simp
    qed
  qed
qed

lemma mineLoop_returns_only:
  "mineLoop b a = Some r \<Longrightarrow> nonce b \<le> 2 ^ 53 \<Longrightarrow>
   \<exists>n. incrementNonce (nonce b) \<le> n \<and> n \<le> 2 ^ 53 \<and> meetsDifficulty b n"
  using mineLoop_returns_only_aux by blast

lemma mineLoop_never:
  assumes "nonce b \<le> 2 ^ 53"
    and "\<And>n. incrementNonce (nonce b) \<le> n \<Longrightarrow> n \<le> 2 ^ 53 \<Longrightarrow> \<not> meetsDifficulty b n"
  shows "mineLoop b a = None"
proof (cases "mineLoop b a")
  case None
  then show ?thesis .
next
  case (Some r)
  from mineLoop_returns_only [OF Some assms(1)] assms(2) show ?thesis by blast
qed

text \<open>The digests of three header strings, computed round by round.\<close>

lemma digest_nonce_1:
  "sha256 ''0:p:m:14:1:1'' = ''7e89de3d1213bdaf5673e212a03c20c99494b574396e836d14863ff93d8be701''"
  by (simp add: sha_eval)

lemma digest_nonce_2:
  "sha256 ''0:p:m:14:1:2'' = ''0719e141f20c83e00f48a0a20ba107fa444a9cceaadfa33ab24e3a580a55db34''"
  by (simp add: sha_eval)

lemma digest_nonce_stalled:
  "sha256 ''0:p:m:14:1:9007199254740992'' =
     ''3d3b57112cf60b5d51d358d88a768b41d6e5aca118aac49e59691e45661f0661''"
  by (simp add: sha_eval)

lemma searchBlock_headers:
  "getHeaderString (searchBlock\<lparr>nonce := Suc 0\<rparr>) = ''0:p:m:14:1:1''"
  "getHeaderString (searchBlock\<lparr>nonce := 2\<rparr>) = ''0:p:m:14:1:2''"
  "getHeaderString (searchBlock\<lparr>nonce := 9007199254740992\<rparr>) = ''0:p:m:14:1:9007199254740992''"
  by (simp_all add: getHeaderString_def searchBlock_def newBlock_def numberToString.simps
      decDigit_def)

lemma searchBlock_difficulty: "repeat ''0'' (difficulty searchBlock) = ''0''"
  by (simp add: searchBlock_def newBlock_def repeat_def)

lemma searchBlock_meets:
  "\<not> meetsDifficulty searchBlock 1" "meetsDifficulty searchBlock 2"
  "\<not> meetsDifficulty searchBlock 9007199254740992"
  by (simp_all add: meetsDifficulty_def searchBlock_headers digest_nonce_1 digest_nonce_2
      digest_nonce_stalled searchBlock_difficulty startsWith_def)

text \<open>
  Claim C7 says that \<^verbatim>\<open>mine\<close> terminates whenever some nonce has a qualifying digest. The
  search only moves upwards from the block's nonce and cannot pass \<open>2 ^ 53\<close>. \<open>stalledBlock\<close>
  has difficulty 1 and nonce \<open>2 ^ 53\<close>; its header digest with nonce 2 starts with a zero, so
  a qualifying nonce exists; \<^verbatim>\<open>this.nonce++\<close> leaves the nonce at \<open>2 ^ 53\<close>, the digest there
  starts with \<open>3\<close>, and \<^verbatim>\<open>mine\<close> hashes the same header for ever.
\<close>

theorem mine_stalls_with_qualifying_nonce:
  "difficulty stalledBlock = 1 \<and> nonce stalledBlock = 2 ^ 53 \<and>
   sha256 (getHeaderString (stalledBlock\<lparr>nonce := 2\<rparr>)) =
     ''0719e141f20c83e00f48a0a20ba107fa444a9cceaadfa33ab24e3a580a55db34'' \<and>
   meetsDifficulty stalledBlock 2 \<and>
   incrementNonce (nonce stalledBlock) = nonce stalledBlock \<and>
   sha256 (getHeaderString stalledBlock) =
     ''3d3b57112cf60b5d51d358d88a768b41d6e5aca118aac49e59691e45661f0661'' \<and>
   (\<forall>elapsed. mine stalledBlock elapsed = None)"
proof -
  have fields: "difficulty stalledBlock = 1" "nonce stalledBlock = 2 ^ 53"
    by (simp_all add: stalledBlock_def searchBlock_def newBlock_def)
  have same: "stalledBlock\<lparr>nonce := n\<rparr> = searchBlock\<lparr>nonce := n\<rparr>" for n
    by (simp add: stalledBlock_def)
  have meets: "meetsDifficulty stalledBlock n = meetsDifficulty searchBlock n" for n
    by (simp add: meetsDifficulty_def same stalledBlock_def)
  have here: "stalledBlock = searchBlock\<lparr>nonce := 9007199254740992\<rparr>"
    by (simp add: stalledBlock_def)
  have "\<not> meetsDifficulty stalledBlock n"
    if "incrementNonce (nonce stalledBlock) \<le> n" and "n \<le> 2 ^ 53" for n
  proof -
    from that have "n = 9007199254740992"
      by (simp add: fields incrementNonce_def)
    then show ?thesis by (simp add: meets searchBlock_meets)
  qed
  then have "mineLoop stalledBlock 0 = None"
    by (intro mineLoop_never) (simp_all add: fields)
  then have never: "\<forall>elapsed. mine stalledBlock elapsed = None"
    by (simp add: mine_def)
  show ?thesis
    using never fields
    by (simp add: meets searchBlock_meets same searchBlock_headers digest_nonce_2
        incrementNonce_def)
       (simp add: here searchBlock_headers digest_nonce_stalled)
qed

text \<open>
  Claim C7 as amended. For a block whose nonce is at most \<open>2 ^ 53\<close> (a new block has nonce
  0), \<^verbatim>\<open>mine\<close> terminates exactly when some nonce that the search visits, from
  \<open>incrementNonce (nonce b)\<close> to \<open>2 ^ 53\<close>, has a header digest with at least \<open>difficulty\<close>
  leading zero characters; on termination the block's hash is the digest of its header
  string at the final nonce and has at least \<open>difficulty\<close> leading zero characters, and the
  final nonce is one of the visited nonces.
\<close>

theorem mine_terminates:
  assumes "nonce b \<le> 2 ^ 53"
  shows "((\<exists>n. incrementNonce (nonce b) \<le> n \<and> n \<le> 2 ^ 53 \<and> meetsDifficulty b n) \<longleftrightarrow>
          (\<exists>b' attempts. mine b elapsed = Some (b', attempts))) \<and>
         (\<forall>b' attempts. mine b elapsed = Some (b', attempts) \<longrightarrow>
            blockHash b' = sha256 (getHeaderString b') \<and>
            startsWith (blockHash b') (repeat ''0'' (difficulty b')) \<and>
            incrementNonce (nonce b) \<le> nonce b' \<and> nonce b' \<le> 2 ^ 53)"
proof -
  have found: "\<exists>m. incrementNonce (nonce b) \<le> m \<and> m \<le> 2 ^ 53 \<and> meetsDifficulty b m \<and>
                 (\<exists>k. mine b elapsed =
                    Some (b\<lparr>nonce := m, blockHash := sha256 (getHeaderString (b\<lparr>nonce := m\<rparr>)),
                            miningTime := elapsed\<rparr>, k))"
    if "incrementNonce (nonce b) \<le> n" and "n \<le> 2 ^ 53" and "meetsDifficulty b n" for n
  proof -
    from mineLoop_visits [OF assms that, of 0] obtain m where
      m: "incrementNonce (nonce b) \<le> m" "m \<le> n" "meetsDifficulty b m"
      "mineLoop b 0 =
         Some (b\<lparr>nonce := m, blockHash := sha256 (getHeaderString (b\<lparr>nonce := m\<rparr>))\<rparr>,
               0 + (if nonce b < 2 ^ 53 then m - nonce b else 1))"
      by blast
    from m(2) that(2) have "m \<le> 2 ^ 53" by simp
    with m show ?thesis
      by (intro exI [of _ m]) (simp add: mine_def)
  qed
  have returns: "\<exists>n. incrementNonce (nonce b) \<le> n \<and> n \<le> 2 ^ 53 \<and> meetsDifficulty b n"
    if "mine b elapsed = Some r" for r
  proof -
    from that obtain r' where "mineLoop b 0 = Some r'"
      by (auto simp: mine_def split: option.splits)
    from mineLoop_returns_only [OF this assms] show ?thesis .
  qed
  have post: "blockHash b' = sha256 (getHeaderString b') \<and>
              startsWith (blockHash b') (repeat ''0'' (difficulty b')) \<and>
              incrementNonce (nonce b) \<le> nonce b' \<and> nonce b' \<le> 2 ^ 53"
    if "mine b elapsed = Some (b', attempts)" for b' attempts
  proof -
    from returns [OF that] obtain n where
      "incrementNonce (nonce b) \<le> n" "n \<le> 2 ^ 53" "meetsDifficulty b n"
      by blast
    from found [OF this] that obtain m where
      m: "incrementNonce (nonce b) \<le> m" "m \<le> 2 ^ 53" "meetsDifficulty b m"
      "b' = b\<lparr>nonce := m, blockHash := sha256 (getHeaderString (b\<lparr>nonce := m\<rparr>)),
               miningTime := elapsed\<rparr>"
      by auto
    have "getHeaderString b' = getHeaderString (b\<lparr>nonce := m\<rparr>)"
      by (simp add: m(4) getHeaderString_def)
    with m show ?thesis
      by (simp add: meetsDifficulty_def)
  qed
  from found returns post show ?thesis
    by blast
qed

theorem mine_terminates_witness:
  "nonce searchBlock \<le> 2 ^ 53 \<and> difficulty searchBlock = 1 \<and>
   incrementNonce (nonce searchBlock) \<le> 2 \<and> (2::nat) \<le> 2 ^ 53 \<and>
   \<not> meetsDifficulty searchBlock 1 \<and> meetsDifficulty searchBlock 2 \<and>
   (\<exists>b' attempts. mine searchBlock 5 = Some (b', attempts) \<and>
      nonce b' = 2 \<and> attempts = 2 \<and>
      blockHash b' = ''0719e141f20c83e00f48a0a20ba107fa444a9cceaadfa33ab24e3a580a55db34'' \<and>
      blockHash b' = sha256 (getHeaderString b') \<and>
      startsWith (blockHash b') (repeat ''0'' (difficulty b')))"
proof -
  have pre: "nonce searchBlock \<le> 2 ^ 53"
    by (simp add: searchBlock_def newBlock_def)
  have visited: "incrementNonce (nonce searchBlock) \<le> 2" "(2::nat) \<le> 2 ^ 53"
    by (simp_all add: searchBlock_def newBlock_def incrementNonce_def)
  have first: "incrementNonce (nonce searchBlock) = Suc 0"
    by (simp add: searchBlock_def newBlock_def incrementNonce_def)
  have second: "incrementNonce (Suc 0) = 2"
    by (simp add: incrementNonce_def)
  let ?h1 = "sha256 (getHeaderString (searchBlock\<lparr>nonce := Suc 0\<rparr>))"
  have zeros: "repeat ''0'' (difficulty searchBlock) = ''0''"
    by (rule searchBlock_difficulty)
  have miss: "\<not> startsWith ?h1 ''0''"
    by (simp add: searchBlock_headers digest_nonce_1 startsWith_def)
  have step: "mineLoop searchBlock 0 =
                mineLoop (searchBlock\<lparr>nonce := Suc 0, blockHash := ?h1\<rparr>) (Suc 0)"
    using miss by (subst mineLoop.simps) (simp add: first zeros)
  have hit: "sha256 (getHeaderString (searchBlock\<lparr>nonce := 2\<rparr>)) =
               ''0719e141f20c83e00f48a0a20ba107fa444a9cceaadfa33ab24e3a580a55db34''"
    by (simp add: searchBlock_headers digest_nonce_2)
  have "mineLoop (searchBlock\<lparr>nonce := Suc 0, blockHash := ?h1\<rparr>) (Suc 0) =
          Some (searchBlock\<lparr>nonce := 2,
                  blockHash := ''0719e141f20c83e00f48a0a20ba107fa444a9cceaadfa33ab24e3a580a55db34''\<rparr>, 2)"
    by (subst mineLoop.simps) (simp add: second zeros getHeaderString_hashed hit startsWith_def)
  with step have "mineLoop searchBlock 0 =
          Some (searchBlock\<lparr>nonce := 2,
                  blockHash := ''0719e141f20c83e00f48a0a20ba107fa444a9cceaadfa33ab24e3a580a55db34''\<rparr>, 2)"
    by simp
  then have run: "mine searchBlock 5 =
          Some (searchBlock\<lparr>nonce := 2,
                  blockHash := ''0719e141f20c83e00f48a0a20ba107fa444a9cceaadfa33ab24e3a580a55db34'',
                  miningTime := 5\<rparr>, 2)"
    by (simp add: mine_def)
  from mine_terminates [OF pre, of 5] visited searchBlock_meets(2)
  obtain b' attempts where ret: "mine searchBlock 5 = Some (b', attempts)"
    and post: "blockHash b' = sha256 (getHeaderString b')"
      "startsWith (blockHash b') (repeat ''0'' (difficulty b'))"
    by blast
  from ret run have "nonce b' = 2" "attempts = 2"
    "blockHash b' = ''0719e141f20c83e00f48a0a20ba107fa444a9cceaadfa33ab24e3a580a55db34''"
    by auto
  with ret post pre visited searchBlock_meets show ?thesis
    by (auto simp: searchBlock_def newBlock_def)
qed

subsection \<open>C8: admission to the mempool\<close>

text \<open>
  Claim C8. When \<^verbatim>\<open>tx.verify(utxoSet)\<close> fails, \<^verbatim>\<open>addToMempool\<close> throws
  \<^verbatim>\<open>Invalid transaction\<close> and the state (mempool, chain, UTXO set) is the one before the
  call; when it succeeds, the transaction is appended to the mempool, nothing else changes,
  and the call returns \<^verbatim>\<open>true\<close>.
\<close>

theorem addToMempool_atomic:
  "(\<not> verify reg tx (utxoSet bc) \<longrightarrow> addToMempool reg bc tx = (Inl InvalidTransaction, bc)) \<and>
   (verify reg tx (utxoSet bc) \<longrightarrow>
      addToMempool reg bc tx = (Inr True, bc\<lparr>mempool := mempool bc @ [tx]\<rparr>))"
  by (auto simp: addToMempool_def verify_def)

theorem addToMempool_atomic_witness:
  "\<not> verify demoRegistry unknownSpend (utxoSet genesisState) \<and>
   addToMempool demoRegistry genesisState unknownSpend = (Inl InvalidTransaction, genesisState) \<and>
   verify demoRegistry payBob (utxoSet genesisState) \<and>
   addToMempool demoRegistry genesisState payBob =
     (Inr True, genesisState\<lparr>mempool := mempool genesisState @ [payBob]\<rparr>)"
  using addToMempool_atomic [of demoRegistry unknownSpend genesisState]
    addToMempool_atomic [of demoRegistry payBob genesisState] verify_payBob not_verify_unknownSpend
  by simp

subsection \<open>C9: a block received\<close>

lemma validateFrom_append_Valid:
  "validateFrom i prev (bs @ [b]) = Valid \<Longrightarrow>
   blockHash b = sha256 (getHeaderString b) \<and> merkleRoot b = computeRoot (map hash (transactions b))"
  by (induction bs arbitrary: i prev) (auto split: if_splits)

lemma validateChain_append_Valid:
  "c \<noteq> [] \<Longrightarrow> validateChain (c @ [b]) = Valid \<Longrightarrow>
   blockHash b = sha256 (getHeaderString b) \<and> merkleRoot b = computeRoot (map hash (transactions b))"
  by (cases c) (auto simp: validateChain_def dest: validateFrom_append_Valid)

text \<open>
  Claim C9. \<^verbatim>\<open>handleNewBlock\<close> never recomputes the digest: a received block whose
  \<^verbatim>\<open>previousHash\<close> is the local tip's hash and whose transmitted hash starts with
  \<open>difficulty\<close> zero characters is appended and its UTXO effects are applied, whatever its
  hash and Merkle root are; when the transmitted hash is not the digest of the block's
  header string, or the transmitted Merkle root is not the root of its transactions, the
  chain after the call fails \<^verbatim>\<open>validateChain\<close>.
\<close>

theorem handleNewBlock_no_digest_check:
  assumes "chain bc \<noteq> []"
    and "previousHash blockData = blockHash (last (chain bc))"
    and "startsWith (blockHash blockData) (repeat ''0'' (difficulty blockData))"
  shows "handleNewBlock now bc blockData =
           Inr (bc\<lparr>chain := chain bc @ [blockData],
                   utxoSet := processBlockUTXOs (utxoSet bc) blockData,
                   mempool := filter (\<lambda>t. hash t \<notin> set (map hash (transactions blockData)))
                                     (mempool bc)\<rparr>,
                BroadcastNewBlock blockData) \<and>
         (blockHash blockData \<noteq> sha256 (getHeaderString blockData) \<or>
          merkleRoot blockData \<noteq> computeRoot (map hash (transactions blockData)) \<longrightarrow>
          validateChain (chain bc @ [blockData]) \<noteq> Valid)"
  using assms validateChain_append_Valid [of "chain bc" blockData]
  by (auto simp: handleNewBlock_def rebuildBlock_same Let_def)

theorem handleNewBlock_no_digest_check_witness:
  "chain genesisState \<noteq> [] \<and> previousHash forgedBlock = blockHash (last (chain genesisState)) \<and>
   startsWith (blockHash forgedBlock) (repeat ''0'' (difficulty forgedBlock)) \<and>
   blockHash forgedBlock \<noteq> sha256 (getHeaderString forgedBlock) \<and>
   validateChain (chain genesisState) = Valid \<and>
   handleNewBlock 0 genesisState forgedBlock =
     Inr (genesisState\<lparr>chain := chain genesisState @ [forgedBlock],
                       utxoSet := processBlockUTXOs (utxoSet genesisState) forgedBlock,
                       mempool := []\<rparr>,
          BroadcastNewBlock forgedBlock) \<and>
   validateChain (chain genesisState @ [forgedBlock]) \<noteq> Valid"
proof -
  have pre: "chain genesisState \<noteq> []"
    "previousHash forgedBlock = blockHash (last (chain genesisState))"
    "startsWith (blockHash forgedBlock) (repeat ''0'' (difficulty forgedBlock))"
    by (simp_all add: genesisState_fields forgedBlock_def)
  have bad: "blockHash forgedBlock \<noteq> sha256 (getHeaderString forgedBlock)"
    using sha256_not_empty [of "getHeaderString forgedBlock"] by (simp add: forgedBlock_def)
  have ok: "validateChain (chain genesisState) = Valid"
    by (simp add: genesisState_fields validateChain_def)
  from handleNewBlock_no_digest_check [OF pre, of 0] pre bad ok
  show ?thesis by (simp add: genesisState_fields)
qed

subsection \<open>C10: transactions that claim to be coinbase\<close>

text \<open>
  Claim C10 says that a peer's \<^verbatim>\<open>NEW_TX\<close> with \<^verbatim>\<open>isCoinbase\<close> set is admitted without any
  check. One check stands before admission: \<^verbatim>\<open>handleNewTx\<close> drops a transaction whose hash
  a pending transaction already has. Sent a second time, the coinbase-flagged transaction is
  not admitted.
\<close>

theorem coinbase_flag_duplicate_dropped:
  "isCoinbase forgedCoinbase \<and>
   handleNewTx 0 demoRegistry (genesisState\<lparr>mempool := [forgedCoinbase]\<rparr>) forgedCoinbase =
     (genesisState\<lparr>mempool := [forgedCoinbase]\<rparr>, NoReply)"
  by (simp add: handleNewTx_def forgedCoinbase_def)

text \<open>
  Claim C10 as amended. For a transaction whose \<^verbatim>\<open>isCoinbase\<close> flag is set,
  \<^verbatim>\<open>addToMempool\<close> skips verification and appends it to the mempool whatever its inputs,
  outputs and amounts are; a peer's \<^verbatim>\<open>NEW_TX\<close> with the flag set, whose hash no pending
  transaction has, is therefore admitted without verification and relayed.
\<close>

theorem coinbase_flag_bypass:
  "(isCoinbase tx \<longrightarrow>
      addToMempool reg bc tx = (Inr True, bc\<lparr>mempool := mempool bc @ [tx]\<rparr>)) \<and>
   (isCoinbase txData \<and> find (\<lambda>t. hash t = hash txData) (mempool bc) = None \<longrightarrow>
      handleNewTx now reg bc txData =
        (bc\<lparr>mempool := mempool bc @ [txData]\<rparr>, BroadcastNewTx txData))"
  by (simp add: addToMempool_def handleNewTx_def rebuildTx_same)

theorem coinbase_flag_bypass_witness:
  "isCoinbase forgedCoinbase \<and>
   addToMempool demoRegistry genesisState forgedCoinbase =
     (Inr True, genesisState\<lparr>mempool := [forgedCoinbase]\<rparr>) \<and>
   find (\<lambda>t. hash t = hash forgedCoinbase) (mempool genesisState) = None \<and>
   \<not> verify demoRegistry (forgedCoinbase\<lparr>isCoinbase := False\<rparr>) (utxoSet genesisState) \<and>
   handleNewTx 0 demoRegistry genesisState forgedCoinbase =
     (genesisState\<lparr>mempool := [forgedCoinbase]\<rparr>, BroadcastNewTx forgedCoinbase)"
proof -
  have cb: "isCoinbase forgedCoinbase" by (simp add: forgedCoinbase_def)
  have unverifiable:
    "\<not> verify demoRegistry (forgedCoinbase\<lparr>isCoinbase := False\<rparr>) (utxoSet genesisState)"
    by (simp add: verify_def forgedCoinbase_def genesisState_fields mapGet_def utxoKey_def
        numberToString.simps decDigit_def)
  from coinbase_flag_bypass [of forgedCoinbase demoRegistry genesisState forgedCoinbase 0] cb unverifiable
  show ?thesis by (simp add: genesisState_fields)
qed

end
